theory Spec2Isabelle
  imports Complex_Main
begin

section \<open>Data model of the cycle solver (uniswap\_lp\_cycle.py)\<close>

text \<open>
  Tokens and pools are identified by their address; an \<open>Erc20Token\<close> compares equal to
  another exactly when the addresses agree, so a token is modelled by its address.
  Python integers are unbounded and modelled by \<open>int\<close>. A \<open>Fraction\<close> is a normalised
  rational, modelled by \<open>rat\<close>, whose \<open>numerator\<close> and \<open>denominator\<close> are read with
  \<open>quotient_of\<close>. Python floats are IEEE doubles, modelled below.
\<close>

type_synonym address = nat
type_synonym Erc20Token = address
type_synonym Fraction = rat

section \<open>Double-precision arithmetic\<close>

text \<open>
  A finite double is a rational number, so floats are values of type \<open>rat\<close>. Python's
  \<open>int(x)\<close> on a float truncates toward zero and \<open>round(x)\<close> rounds half to even; both are
  exact.
\<close>

definition py_int :: "rat \<Rightarrow> int" where
  "py_int x = (if 0 \<le> x then \<lfloor>x\<rfloor> else \<lceil>x\<rceil>)"

definition py_round :: "rat \<Rightarrow> int" where
  "py_round x =
     (let f = \<lfloor>x\<rfloor>; d = x - of_int f in
      if d < 1 / 2 then f
      else if 1 / 2 < d then f + 1
      else if even f then f else f + 1)"

text \<open>
  \<open>round_double x\<close> is the double nearest to \<open>x\<close>: the significand has 53 bits and ties go
  to the even significand. \<open>bit_length\<close> is the number of binary digits of a positive
  integer and \<open>binary_exponent x\<close> the exponent \<open>e\<close> with \<open>2^e \<le> x < 2^(e+1)\<close>.

  The exponent is not bounded: a double overflows from \<open>2^1024\<close> on and loses significand
  bits below \<open>2^-1022\<close>, where Python raises \<open>OverflowError\<close> or returns an infinity, a
  subnormal number or zero. These magnitudes are not modelled; reserves (112 bits), square
  root prices (160 bits) and token amounts (256 bits) are many orders of magnitude inside
  the range.
\<close>

function bit_length :: "int \<Rightarrow> int" where
  "bit_length a = (if a \<le> 0 then 0 else 1 + bit_length (a div 2))"
  by pat_completeness auto
termination
  by (relation "measure nat") auto

declare bit_length.simps [simp del]

definition binary_exponent :: "rat \<Rightarrow> int" where
  "binary_exponent x =
     (let (a, b) = quotient_of x;
          k = bit_length a - bit_length b
      in if 2 powi k \<le> x then k else k - 1)"

definition round_double :: "rat \<Rightarrow> rat" where
  "round_double x =
     (if x = 0 then 0
      else (let q = binary_exponent \<bar>x\<bar> - 52
            in sgn x * of_int (py_round (\<bar>x\<bar> / 2 powi q)) * 2 powi q))"

text \<open>
  The operations of Python on these values: \<open>a / b\<close> on two integers is the correctly
  rounded quotient, \<open>float(n)\<close> the correctly rounded integer, and the product and the
  quotient of two floats are rounded once.
\<close>

definition int_true_div :: "int \<Rightarrow> int \<Rightarrow> rat" where
  "int_true_div a b = round_double (of_int a / of_int b)"

definition float_of_int :: "int \<Rightarrow> rat" where
  "float_of_int n = round_double (of_int n)"

definition float_mul :: "rat \<Rightarrow> rat \<Rightarrow> rat" where
  "float_mul x y = round_double (x * y)"

definition float_div :: "rat \<Rightarrow> rat \<Rightarrow> rat" where
  "float_div x y = round_double (x / y)"

section \<open>Exceptions, pools and cycles\<close>

text \<open>
  The exceptions that the modelled functions raise or let through. \<open>LiquidityPoolError\<close>
  stands for the class and its subclasses (such as \<open>ZeroSwapError\<close>). The argument of
  \<open>ArbitrageError\<close> records which message the source raises it with.
\<close>

datatype arbitrage_message =
    NoProfitableArbitrage   \<comment> \<open>"No profitable arbitrage at current prices. ..."\<close>
  | NoPossibleArbitrage     \<comment> \<open>"No possible arbitrage: ..."\<close>
  | ZeroOutputSwap          \<comment> \<open>"Zero-output swap through pool ..."\<close>
  | CalculateTokensOut      \<comment> \<open>"(calculate\_tokens\_out\_from\_tokens\_in): ..."\<close>

datatype exn =
    ValueError
  | AttributeError
  | ZeroDivisionError
  | EVMRevertError
  | LiquidityPoolError
  | ZeroLiquidityError
  | ArbitrageError arbitrage_message
  | OtherException

record UniswapV2PoolState =
  reserves_token0 :: int
  reserves_token1 :: int

text \<open>
  \<open>tick_bitmap\<close> is a dictionary from word position to bitmap; only its emptiness is read
  by the functions modelled here, so it is kept as an association list.
\<close>

record UniswapV3PoolState =
  liquidity :: int
  sqrt_price_x96 :: int
  tick :: int
  tick_bitmap :: "(int \<times> int) list"

datatype pool_state =
    V2State UniswapV2PoolState
  | V3State UniswapV3PoolState

text \<open>
  The two pool classes; \<open>isinstance(pool, LiquidityPool)\<close> is a case split on \<open>kind\<close>. The
  pool's own swap calculation lives outside the modelled file and is a field of the pool:
  it takes \<open>token_in\<close>, \<open>token_in_quantity\<close> and \<open>override_state\<close> and returns the
  output quantity or raises.
\<close>

datatype pool_kind =
    LiquidityPool Fraction Fraction   \<comment> \<open>\<open>fee_token0\<close>, \<open>fee_token1\<close>\<close>
  | V3LiquidityPool int               \<comment> \<open>\<open>_fee\<close>, in hundredths of a bip\<close>

record pool =
  kind :: pool_kind
  address :: address
  token0 :: Erc20Token
  token1 :: Erc20Token
  state :: pool_state
  calculate_tokens_out_from_tokens_in ::
    "Erc20Token \<Rightarrow> int \<Rightarrow> pool_state option \<Rightarrow> exn + int"

record UniswapPoolSwapVector =
  token_in :: Erc20Token
  token_out :: Erc20Token
  zero_for_one :: bool

text \<open>
  The fields of \<open>UniswapLpCycle\<close> that the calculation reads. The lock, the name, the
  gas estimate, the cached \<open>pool_states\<close> and the \<open>best\<close> dictionary are not read by any
  function modelled here and are left out.
\<close>

record UniswapLpCycle =
  swap_pools :: "pool list"
  cycle_id :: string
  input_token :: Erc20Token
  max_input :: int
  swap_vectors :: "UniswapPoolSwapVector list"

section \<open>The constructor\<close>

text \<open>
  The loop over \<open>enumerate(self.swap_pools)\<close> that builds the swap vectors. \<open>i\<close> is the
  loop index and \<open>tok_out\<close> the variable \<open>token_out\<close> left by the previous iteration
  (unbound in Python while \<open>i = 0\<close>, where it is not read).
\<close>

fun swap_vectors_loop ::
  "Erc20Token \<Rightarrow> nat \<Rightarrow> Erc20Token \<Rightarrow> pool list \<Rightarrow> exn + UniswapPoolSwapVector list" where
  "swap_vectors_loop inp i tok_out [] = Inr []"
| "swap_vectors_loop inp i tok_out (p # ps) =
     (let prev = (if i = 0 then inp else tok_out) in
      if prev = token0 p then
        (case swap_vectors_loop inp (Suc i) (token1 p) ps of
           Inl e \<Rightarrow> Inl e
         | Inr vs \<Rightarrow>
             Inr (\<lparr>token_in = token0 p, token_out = token1 p, zero_for_one = True\<rparr> # vs))
      else if prev = token1 p then
        (case swap_vectors_loop inp (Suc i) (token0 p) ps of
           Inl e \<Rightarrow> Inl e
         | Inr vs \<Rightarrow>
             Inr (\<lparr>token_in = token1 p, token_out = token0 p, zero_for_one = False\<rparr> # vs))
      else Inl ValueError)"

text \<open>
  \<open>__init__\<close>. Pools are typed, so the \<open>isinstance\<close> test on every pool cannot fail.
  Subscribing to the pools and the initial values of the caches do not bear on the fields
  kept here. The result is the list of warnings issued together with the constructed
  cycle or the exception raised.
\<close>

definition UniswapLpCycle_init ::
  "Erc20Token \<Rightarrow> pool list \<Rightarrow> string \<Rightarrow> int option \<Rightarrow> string list \<times> (exn + UniswapLpCycle)" where
  "UniswapLpCycle_init inp pools ident max_in =
     (let (warnings, m) =
        (case max_in of
           None \<Rightarrow> ([''No maximum input provided, setting to 100 WETH''], 100 * 10 ^ 18)
         | Some m \<Rightarrow> ([], m))
      in (warnings,
          case swap_vectors_loop inp 0 inp pools of
            Inl e \<Rightarrow> Inl e
          | Inr vs \<Rightarrow>
              Inr \<lparr>swap_pools = pools, cycle_id = ident, input_token = inp,
                   max_input = m, swap_vectors = vs\<rparr>))"

text \<open>A pool of each kind whose swap calculation echoes its input, for concrete checks.\<close>

definition echo_pool :: "pool_kind \<Rightarrow> address \<Rightarrow> Erc20Token \<Rightarrow> Erc20Token \<Rightarrow> pool_state \<Rightarrow> pool" where
  "echo_pool k a t0 t1 st =
     \<lparr>kind = k, address = a, token0 = t0, token1 = t1, state = st,
      calculate_tokens_out_from_tokens_in = (\<lambda>tok q ov. Inr q)\<rparr>"

section \<open>Tick constants\<close>

text \<open>
  Modelled from the spec: the constants \<open>TickMath.MIN_SQRT_RATIO\<close> and
  \<open>TickMath.MAX_SQRT_RATIO\<close> of the V3 library module, which is not part of the
  modelled file; the values are those the specification gives.
\<close>

definition MIN_SQRT_RATIO :: int where
  "MIN_SQRT_RATIO = 4295128739"

definition MAX_SQRT_RATIO :: int where
  "MAX_SQRT_RATIO = 1461446703485210103287273052203988822378723970342"

section \<open>State overrides\<close>

text \<open>
  An override is a pool state, a simulation result (of which only \<open>future_state\<close> is
  read), or a value of any other type, which \<open>_sort_overrides\<close> rejects.
\<close>

datatype override =
    StateOverride pool_state
  | SimulationResult pool_state
  | UnsupportedOverride

fun sort_overrides_loop ::
  "(address \<rightharpoonup> pool_state) \<Rightarrow> (pool \<times> override) list \<Rightarrow> exn + (address \<rightharpoonup> pool_state)" where
  "sort_overrides_loop m [] = Inr m"
| "sort_overrides_loop m ((p, ov) # rest) =
     (case ov of
        StateOverride s \<Rightarrow> sort_overrides_loop (m(address p \<mapsto> s)) rest
      | SimulationResult s \<Rightarrow> sort_overrides_loop (m(address p \<mapsto> s)) rest
      | UnsupportedOverride \<Rightarrow> Inl ValueError)"

definition sort_overrides ::
  "(pool \<times> override) list option \<Rightarrow> exn + (address \<rightharpoonup> pool_state)" where
  "sort_overrides overrides =
     (case overrides of
        None \<Rightarrow> Inr Map.empty
      | Some ovs \<Rightarrow> sort_overrides_loop Map.empty ovs)"

section \<open>The pre-calculation check\<close>

text \<open>
  The liquidity test of a V2 hop. On success it yields the exact quotient
  \<open>reserves_token1 / reserves_token0\<close>, which the true division of the two integers
  rounds to \<open>price\<close>.
\<close>

definition v2_liquidity_check :: "UniswapV2PoolState \<Rightarrow> bool \<Rightarrow> exn + rat" where
  "v2_liquidity_check s zfo =
     (if reserves_token0 s = 0 \<or> reserves_token1 s = 0 then Inl ZeroLiquidityError
      else if reserves_token1 s = 1 \<and> zfo then Inl ZeroLiquidityError
      else if reserves_token0 s = 1 \<and> \<not> zfo then Inl ZeroLiquidityError
      else Inr (of_int (reserves_token1 s) / of_int (reserves_token0 s)))"

text \<open>
  The liquidity test of a V3 hop. On success it yields the exact quotient
  \<open>sqrt_price_x96**2 / 2**192\<close>, which the true division of the two integers rounds to
  \<open>price\<close>.
\<close>

definition v3_liquidity_check :: "UniswapV3PoolState \<Rightarrow> bool \<Rightarrow> exn + rat" where
  "v3_liquidity_check s zfo =
     (if sqrt_price_x96 s = 0 then Inl ZeroLiquidityError
      else if tick_bitmap s = [] then Inl ZeroLiquidityError
      else if liquidity s = 0 \<and> sqrt_price_x96 s = MIN_SQRT_RATIO + 1 \<and> zfo
        then Inl ZeroLiquidityError
      else if liquidity s = 0 \<and> sqrt_price_x96 s = MAX_SQRT_RATIO - 1 \<and> \<not> zfo
        then Inl ZeroLiquidityError
      else Inr (of_int ((sqrt_price_x96 s)\<^sup>2) / 2 ^ 192))"

text \<open>
  The first half of the loop body: dispatch on the pool class. Reading a V2 field of a V3
  state (or the converse) raises \<open>AttributeError\<close>.
\<close>

definition hop_quotient :: "pool \<Rightarrow> UniswapPoolSwapVector \<Rightarrow> pool_state \<Rightarrow> exn + rat" where
  "hop_quotient p v st =
     (case kind p of
        LiquidityPool f0 f1 \<Rightarrow>
          (case st of
             V2State s \<Rightarrow> v2_liquidity_check s (zero_for_one v)
           | V3State s \<Rightarrow> Inl AttributeError)
      | V3LiquidityPool f \<Rightarrow>
          (case st of
             V2State s \<Rightarrow> Inl AttributeError
           | V3State s \<Rightarrow> v3_liquidity_check s (zero_for_one v)))"

text \<open>\<open>price\<close>: the quotient as the double that the division returns.\<close>

definition hop_price :: "pool \<Rightarrow> UniswapPoolSwapVector \<Rightarrow> pool_state \<Rightarrow> exn + rat" where
  "hop_price p v st =
     (case hop_quotient p v st of
        Inl e \<Rightarrow> Inl e
      | Inr q \<Rightarrow> Inr (round_double q))"

definition hop_fee :: "pool \<Rightarrow> UniswapPoolSwapVector \<Rightarrow> Fraction" where
  "hop_fee p v =
     (case kind p of
        LiquidityPool f0 f1 \<Rightarrow> (if zero_for_one v then f0 else f1)
      | V3LiquidityPool f \<Rightarrow> Fract f 1000000)"

text \<open>\<open>(fee.denominator - fee.numerator) / fee.denominator\<close>, a division of two integers\<close>

definition fee_multiplier :: "Fraction \<Rightarrow> rat" where
  "fee_multiplier fee =
     (let (n, d) = quotient_of fee in int_true_div (d - n) d)"

text \<open>\<open>state_overrides.get(pool.address) or pool.state\<close>\<close>

definition effective_state :: "(address \<rightharpoonup> pool_state) \<Rightarrow> pool \<Rightarrow> pool_state" where
  "effective_state so p = (case so (address p) of Some s \<Rightarrow> s | None \<Rightarrow> state p)"

text \<open>
  The loop over \<open>zip(self.swap_pools, self._swap_vectors)\<close>, with the running
  \<open>profit_factor\<close> as accumulator: the directional price times the fee multiplier is
  rounded, then its product with \<open>profit_factor\<close> is rounded. The float division
  \<open>1 / price\<close> raises on a zero divisor.
\<close>

fun pre_check_loop ::
  "(address \<rightharpoonup> pool_state) \<Rightarrow> rat \<Rightarrow> (pool \<times> UniswapPoolSwapVector) list \<Rightarrow> exn + rat" where
  "pre_check_loop so pf [] = Inr pf"
| "pre_check_loop so pf ((p, v) # rest) =
     (case hop_price p v (effective_state so p) of
        Inl e \<Rightarrow> Inl e
      | Inr price \<Rightarrow>
          (if zero_for_one v
           then pre_check_loop so
                  (float_mul pf (float_mul price (fee_multiplier (hop_fee p v)))) rest
           else if price = 0 then Inl ZeroDivisionError
           else pre_check_loop so
                  (float_mul pf (float_mul (float_div 1 price) (fee_multiplier (hop_fee p v))))
                  rest))"

definition pre_calculation_check ::
  "UniswapLpCycle \<Rightarrow> (pool \<times> override) list option \<Rightarrow> exn + unit" where
  "pre_calculation_check c override_state =
     (case sort_overrides override_state of
        Inl e \<Rightarrow> Inl e
      | Inr so \<Rightarrow>
          (case pre_check_loop so 1 (zip (swap_pools c) (swap_vectors c)) of
             Inl e \<Rightarrow> Inl e
           | Inr profit_factor \<Rightarrow>
               if profit_factor < 1 then Inl (ArbitrageError NoProfitableArbitrage)
               else Inr ()))"

text \<open>
  The profit factor in the specification's words, computed in doubles: the price of a hop
  is the double nearest to \<open>reserves_token1 / reserves_token0\<close> (V2) or to
  \<open>(sqrt_price_x96 / 2^96)^2\<close> (V3), reciprocated for a one-for-zero hop; the fee
  multiplier is the double nearest to \<open>(fee.denominator - fee.numerator) / fee.denominator\<close>;
  the profit factor is the running product, from 1.0, of price times fee multiplier over
  the hops.
\<close>

definition exact_price :: "pool_state \<Rightarrow> rat" where
  "exact_price st =
     (case st of
        V2State s \<Rightarrow> of_int (reserves_token1 s) / of_int (reserves_token0 s)
      | V3State s \<Rightarrow> (of_int (sqrt_price_x96 s) / 2 ^ 96)\<^sup>2)"

definition spec_price :: "pool_state \<Rightarrow> rat" where
  "spec_price st = round_double (exact_price st)"

definition spec_hop_factor ::
  "(address \<rightharpoonup> pool_state) \<Rightarrow> pool \<times> UniswapPoolSwapVector \<Rightarrow> rat" where
  "spec_hop_factor so h =
     (let price = spec_price (effective_state so (fst h));
          fee = hop_fee (fst h) (snd h)
      in float_mul (if zero_for_one (snd h) then price else float_div 1 price)
           (round_double (1 - fee)))"

definition spec_profit_factor ::
  "(address \<rightharpoonup> pool_state) \<Rightarrow> (pool \<times> UniswapPoolSwapVector) list \<Rightarrow> rat" where
  "spec_profit_factor so hops = foldl float_mul 1 (map (spec_hop_factor so) hops)"

text \<open>A hop passes the liquidity test of its pool class.\<close>

definition hop_liquid ::
  "(address \<rightharpoonup> pool_state) \<Rightarrow> pool \<times> UniswapPoolSwapVector \<Rightarrow> bool" where
  "hop_liquid so h = (case hop_price (fst h) (snd h) (effective_state so (fst h)) of
                        Inl e \<Rightarrow> False | Inr price \<Rightarrow> True)"

text \<open>The state read at a hop has the class its pool expects.\<close>

definition hop_typed ::
  "(address \<rightharpoonup> pool_state) \<Rightarrow> pool \<times> UniswapPoolSwapVector \<Rightarrow> bool" where
  "hop_typed so h =
     (case (kind (fst h), effective_state so (fst h)) of
        (LiquidityPool f0 f1, V2State s) \<Rightarrow> True
      | (V3LiquidityPool f, V3State s) \<Rightarrow> True
      | _ \<Rightarrow> False)"

section \<open>Building the per-hop swap amounts\<close>

datatype swap_amounts =
    UniswapV2PoolSwapAmounts "int \<times> int"
      \<comment> \<open>\<open>amounts\<close>\<close>
  | UniswapV3PoolSwapAmounts int bool int
      \<comment> \<open>\<open>amount_specified\<close>, \<open>zero_for_one\<close>, \<open>sqrt_price_limit_x96\<close>\<close>

definition hop_record :: "pool \<Rightarrow> UniswapPoolSwapVector \<Rightarrow> int \<Rightarrow> int \<Rightarrow> swap_amounts" where
  "hop_record p v tiq toq =
     (case kind p of
        LiquidityPool f0 f1 \<Rightarrow>
          UniswapV2PoolSwapAmounts (if zero_for_one v then (0, toq) else (toq, 0))
      | V3LiquidityPool f \<Rightarrow>
          UniswapV3PoolSwapAmounts tiq (zero_for_one v)
            (if zero_for_one v then MIN_SQRT_RATIO + 1 else MAX_SQRT_RATIO - 1))"

text \<open>
  The loop of \<open>_build_amounts_out\<close>. \<open>i\<close> is the loop index, \<open>tiq\<close> the argument
  \<open>token_in_quantity\<close> and \<open>toq\<close> the variable \<open>_token_out_quantity\<close>. The loop state at
  exit is returned whole: the records appended and the last \<open>_token_out_quantity\<close>.
\<close>

fun build_amounts_out_loop ::
  "(address \<rightharpoonup> pool_state) \<Rightarrow> nat \<Rightarrow> int \<Rightarrow> int \<Rightarrow> (pool \<times> UniswapPoolSwapVector) list
     \<Rightarrow> exn + (swap_amounts list \<times> int)" where
  "build_amounts_out_loop so i tiq toq [] = Inr ([], toq)"
| "build_amounts_out_loop so i tiq toq ((p, v) # rest) =
     (let q = (if i = 0 then tiq else toq) in
      case calculate_tokens_out_from_tokens_in p (token_in v) q (so (address p)) of
        Inl e \<Rightarrow>
          (if e = LiquidityPoolError then Inl (ArbitrageError CalculateTokensOut) else Inl e)
      | Inr out \<Rightarrow>
          if out = 0 then Inl (ArbitrageError ZeroOutputSwap)
          else (case build_amounts_out_loop so (Suc i) tiq out rest of
                  Inl e \<Rightarrow> Inl e
                | Inr (recs, final) \<Rightarrow> Inr (hop_record p v q out # recs, final)))"

text \<open>
  \<open>_build_amounts_out\<close>. The argument \<open>token_in\<close> is overwritten by the first swap vector
  before it is read.
\<close>

definition build_amounts_out ::
  "UniswapLpCycle \<Rightarrow> Erc20Token \<Rightarrow> int \<Rightarrow> (address \<rightharpoonup> pool_state) option
     \<Rightarrow> exn + swap_amounts list" where
  "build_amounts_out c tok tiq pool_state_overrides =
     (let so = (case pool_state_overrides of None \<Rightarrow> Map.empty | Some m \<Rightarrow> m) in
      case build_amounts_out_loop so 0 tiq 0 (zip (swap_pools c) (swap_vectors c)) of
        Inl e \<Rightarrow> Inl e
      | Inr (recs, final) \<Rightarrow> Inr recs)"

section \<open>The objective and the optimisation\<close>

text \<open>
  The composed output \<open>G\<close> of the specification: each pool's swap calculation in order,
  the previous output feeding the next input, with no exception handled.
\<close>

fun swap_chain ::
  "(address \<rightharpoonup> pool_state) \<Rightarrow> nat \<Rightarrow> int \<Rightarrow> int \<Rightarrow> (pool \<times> UniswapPoolSwapVector) list
     \<Rightarrow> exn + int" where
  "swap_chain so i tiq toq [] = Inr toq"
| "swap_chain so i tiq toq ((p, v) # rest) =
     (case calculate_tokens_out_from_tokens_in p (token_in v)
             (if i = 0 then tiq else toq) (so (address p)) of
        Inl e \<Rightarrow> Inl e
      | Inr out \<Rightarrow> swap_chain so (Suc i) tiq out rest)"

text \<open>
  The loop of \<open>arb_profit\<close>: an \<open>EVMRevertError\<close> or \<open>LiquidityPoolError\<close> sets
  \<open>token_out_quantity\<close> to 0 and leaves the loop; any other exception propagates.
\<close>

fun arb_profit_loop ::
  "(address \<rightharpoonup> pool_state) \<Rightarrow> nat \<Rightarrow> int \<Rightarrow> int \<Rightarrow> (pool \<times> UniswapPoolSwapVector) list
     \<Rightarrow> exn + int" where
  "arb_profit_loop so i tiq toq [] = Inr toq"
| "arb_profit_loop so i tiq toq ((p, v) # rest) =
     (case calculate_tokens_out_from_tokens_in p (token_in v)
             (if i = 0 then tiq else toq) (so (address p)) of
        Inl e \<Rightarrow> (if e = EVMRevertError \<or> e = LiquidityPoolError then Inr 0 else Inl e)
      | Inr out \<Rightarrow> arb_profit_loop so (Suc i) tiq out rest)"

definition arb_profit ::
  "UniswapLpCycle \<Rightarrow> (address \<rightharpoonup> pool_state) \<Rightarrow> rat \<Rightarrow> exn + rat" where
  "arb_profit c so x =
     (let token_in_quantity = py_int x in
      case arb_profit_loop so 0 token_in_quantity 0 (zip (swap_pools c) (swap_vectors c)) of
        Inl e \<Rightarrow> Inl e
      | Inr token_out_quantity \<Rightarrow>
          Inr (- float_of_int (token_out_quantity - token_in_quantity)))"

text \<open>
  \<open>scipy.optimize.minimize_scalar\<close> is an external library function and a parameter of
  the model: it receives the objective, the bounds, the bracket and \<open>xatol\<close>, and returns
  the result object, of which \<open>x\<close> and \<open>fun\<close> are read.
\<close>

record OptimizeResult =
  opt_x :: rat
  opt_fun :: rat

type_synonym minimize_scalar =
  "(rat \<Rightarrow> exn + rat) \<Rightarrow> rat \<times> rat \<Rightarrow> rat \<times> rat \<times> rat \<Rightarrow> rat \<Rightarrow> exn + OptimizeResult"

text \<open>
  A minimiser that reports the point \<open>x0\<close> together with the objective's value there.
\<close>

definition point_minimizer :: "rat \<Rightarrow> minimize_scalar" where
  "point_minimizer x0 f bounds bracket xatol =
     (case f x0 of Inl e \<Rightarrow> Inl e | Inr y \<Rightarrow> Inr \<lparr>opt_x = x0, opt_fun = y\<rparr>)"

record ArbitrageCalculationResult =
  result_id :: string
  result_input_token :: Erc20Token
  profit_token :: Erc20Token
  input_amount :: int
  profit_amount :: int
  swap_amounts :: "swap_amounts list"

text \<open>
  \<open>(1.0, float(self.max_input))\<close>, and the three products of a float literal with the
  integer \<open>bracket_amount\<close>, which Python converts to a float before it multiplies. The
  literals \<open>0.45\<close>, \<open>0.50\<close> and \<open>0.55\<close> are the doubles nearest to these decimals.
\<close>

definition bounds_of :: "UniswapLpCycle \<Rightarrow> rat \<times> rat" where
  "bounds_of c = (1, float_of_int (max_input c))"

definition bracket_of :: "UniswapLpCycle \<Rightarrow> rat \<times> rat \<times> rat" where
  "bracket_of c =
     (let bracket_amount = max_input c in
      (float_mul (round_double (45 / 100)) (float_of_int bracket_amount),
       float_mul (round_double (50 / 100)) (float_of_int bracket_amount),
       float_mul (round_double (55 / 100)) (float_of_int bracket_amount)))"

text \<open>\<open>_calculate\<close>\<close>

definition private_calculate ::
  "minimize_scalar \<Rightarrow> UniswapLpCycle \<Rightarrow> (pool \<times> override) list option
     \<Rightarrow> exn + ArbitrageCalculationResult" where
  "private_calculate ms c override_state =
     (case pre_calculation_check c override_state of
        Inl e \<Rightarrow> Inl e
      | Inr u \<Rightarrow>
     (case sort_overrides override_state of
        Inl e \<Rightarrow> Inl e
      | Inr state_overrides \<Rightarrow>
     (case ms (arb_profit c state_overrides) (bounds_of c) (bracket_of c) 1 of
        Inl e \<Rightarrow> Inl e
      | Inr opt \<Rightarrow>
          (let best_profit = - py_int (opt_fun opt);
               swap_amount = py_int (opt_x opt)
           in case build_amounts_out c (input_token c) swap_amount (Some state_overrides) of
                Inl e \<Rightarrow> Inl (ArbitrageError NoPossibleArbitrage)
              | Inr best_amounts \<Rightarrow>
                  Inr \<lparr>result_id = cycle_id c,
                       result_input_token = input_token c,
                       profit_token = input_token c,
                       input_amount = swap_amount,
                       profit_amount = best_profit,
                       swap_amounts = best_amounts\<rparr>))))"

definition calculate ::
  "minimize_scalar \<Rightarrow> UniswapLpCycle \<Rightarrow> (pool \<times> override) list option
     \<Rightarrow> exn + ArbitrageCalculationResult" where
  "calculate ms c override_state =
     (case pre_calculation_check c override_state of
        Inl e \<Rightarrow> Inl e
      | Inr u \<Rightarrow> private_calculate ms c override_state)"

section \<open>A V2 pool for concrete checks\<close>

text \<open>
  Modelled from the spec: \<open>LiquidityPool.calculate_tokens_out_from_tokens_in\<close>, whose
  module is not part of the modelled file. The reserves and the fee are resolved from the
  state and the direction, \<open>amount_in_with_fee = amount_in * (fee.den - fee.num)\<close>, and
  \<open>amount_out\<close> is the floor of
  \<open>amount_in_with_fee * reserve_out / (reserve_in * fee.den + amount_in_with_fee)\<close>. It
  fails on a zero input (the \<open>ZeroSwapError\<close> of the pool's tests, a
  \<open>LiquidityPoolError\<close>) and on a zero reserve. A token of neither side and an override of
  the other pool class are rejected.
\<close>

definition v2_amount_out :: "int \<Rightarrow> int \<Rightarrow> Fraction \<Rightarrow> int \<Rightarrow> exn + int" where
  "v2_amount_out reserve_in reserve_out fee amount_in =
     (if amount_in = 0 then Inl LiquidityPoolError
      else if reserve_in = 0 \<or> reserve_out = 0 then Inl ZeroLiquidityError
      else
        (let (n, d) = quotient_of fee;
             amount_in_with_fee = amount_in * (d - n)
         in Inr ((amount_in_with_fee * reserve_out) div
                 (reserve_in * d + amount_in_with_fee))))"

definition v2_calculate_tokens_out_from_tokens_in ::
  "Erc20Token \<Rightarrow> Erc20Token \<Rightarrow> UniswapV2PoolState \<Rightarrow> Fraction \<Rightarrow> Fraction
     \<Rightarrow> Erc20Token \<Rightarrow> int \<Rightarrow> pool_state option \<Rightarrow> exn + int" where
  "v2_calculate_tokens_out_from_tokens_in t0 t1 st f0 f1 tok amount_in override_state =
     (case (case override_state of None \<Rightarrow> V2State st | Some s \<Rightarrow> s) of
        V3State s \<Rightarrow> Inl AttributeError
      | V2State s \<Rightarrow>
          if tok = t0 then v2_amount_out (reserves_token0 s) (reserves_token1 s) f0 amount_in
          else if tok = t1 then v2_amount_out (reserves_token1 s) (reserves_token0 s) f1 amount_in
          else Inl ValueError)"

definition v2_pool ::
  "address \<Rightarrow> Erc20Token \<Rightarrow> Erc20Token \<Rightarrow> UniswapV2PoolState \<Rightarrow> Fraction \<Rightarrow> Fraction \<Rightarrow> pool" where
  "v2_pool a t0 t1 st f0 f1 =
     \<lparr>kind = LiquidityPool f0 f1, address = a, token0 = t0, token1 = t1, state = V2State st,
      calculate_tokens_out_from_tokens_in = v2_calculate_tokens_out_from_tokens_in t0 t1 st f0 f1\<rparr>"

section \<open>A concrete two-pool cycle\<close>

text \<open>
  Two V2 pools with the default fee of 3/1000 over the tokens 1 and 2, each holding
  1000 units of its \<open>token0\<close> and 1010 units of its \<open>token1\<close>, traversed from token 1.
\<close>

definition example_state :: UniswapV2PoolState where
  "example_state = \<lparr>reserves_token0 = 1000, reserves_token1 = 1010\<rparr>"

definition pool_a :: pool where
  "pool_a = v2_pool 10 1 2 example_state (3 / 1000) (3 / 1000)"

definition pool_b :: pool where
  "pool_b = v2_pool 11 2 1 example_state (3 / 1000) (3 / 1000)"

definition example_vectors :: "UniswapPoolSwapVector list" where
  "example_vectors =
     [\<lparr>token_in = 1, token_out = 2, zero_for_one = True\<rparr>,
      \<lparr>token_in = 2, token_out = 1, zero_for_one = True\<rparr>]"

text \<open>The two swap vectors of the example cycles, by name.\<close>

definition vector_1 :: UniswapPoolSwapVector where
  "vector_1 = \<lparr>token_in = 1, token_out = 2, zero_for_one = True\<rparr>"

definition vector_2 :: UniswapPoolSwapVector where
  "vector_2 = \<lparr>token_in = 2, token_out = 1, zero_for_one = True\<rparr>"

definition example_cycle :: "int \<Rightarrow> UniswapLpCycle" where
  "example_cycle m =
     \<lparr>swap_pools = [pool_a, pool_b], cycle_id = ''cycle'', input_token = 1,
      max_input = m, swap_vectors = example_vectors\<rparr>"

text \<open>A single pool traversed from token 1: the path ends on token 2.\<close>

definition single_cycle :: UniswapLpCycle where
  "single_cycle =
     \<lparr>swap_pools = [pool_a], cycle_id = ''open'', input_token = 1, max_input = 5,
      swap_vectors = [\<lparr>token_in = 1, token_out = 2, zero_for_one = True\<rparr>]\<rparr>"

text \<open>
  Further concrete pools: a V2 pool whose \<open>token1\<close> reserve is down to one unit, overrides
  that balance both example pools, and a V3 pool that was never initialised.
\<close>

definition drained_state :: UniswapV2PoolState where
  "drained_state = \<lparr>reserves_token0 = 10, reserves_token1 = 1\<rparr>"

definition pool_c :: pool where
  "pool_c = v2_pool 12 1 2 drained_state (3 / 1000) (3 / 1000)"

definition drained_cycle :: UniswapLpCycle where
  "drained_cycle =
     \<lparr>swap_pools = [pool_c, pool_b], cycle_id = ''drained'', input_token = 1,
      max_input = 2, swap_vectors = example_vectors\<rparr>"

definition balanced_state :: UniswapV2PoolState where
  "balanced_state = \<lparr>reserves_token0 = 1000, reserves_token1 = 1000\<rparr>"


definition balanced_map :: "address \<rightharpoonup> pool_state" where
  "balanced_map = [10 \<mapsto> V2State balanced_state, 11 \<mapsto> V2State balanced_state]"

definition uninitialised_state :: UniswapV3PoolState where
  "uninitialised_state = \<lparr>liquidity = 5, sqrt_price_x96 = 0, tick = 0, tick_bitmap = [(0, 1)]\<rparr>"

definition pool_v3 :: pool where
  "pool_v3 = echo_pool (V3LiquidityPool 3000) 13 2 1 (V3State uninitialised_state)"

definition v3_cycle :: UniswapLpCycle where
  "v3_cycle =
     \<lparr>swap_pools = [pool_a, pool_v3], cycle_id = ''v3'', input_token = 1,
      max_input = 2, swap_vectors = example_vectors\<rparr>"

text \<open>
  An initialised V3 state at price 1, a V3 pool over it whose swap calculation echoes its
  input, and a V3 pool over it whose swap calculation always reverts; each follows the
  first example pool in a cycle.
\<close>

definition live_state :: UniswapV3PoolState where
  "live_state = \<lparr>liquidity = 5, sqrt_price_x96 = 2 ^ 96, tick = 0, tick_bitmap = [(0, 1)]\<rparr>"

definition pool_live :: pool where
  "pool_live = echo_pool (V3LiquidityPool 3000) 15 2 1 (V3State live_state)"

definition live_cycle :: UniswapLpCycle where
  "live_cycle =
     \<lparr>swap_pools = [pool_a, pool_live], cycle_id = ''live'', input_token = 1,
      max_input = 200, swap_vectors = example_vectors\<rparr>"

definition reverting_pool :: pool where
  "reverting_pool =
     \<lparr>kind = V3LiquidityPool 3000, address = 14, token0 = 2, token1 = 1,
      state = V3State live_state,
      calculate_tokens_out_from_tokens_in = (\<lambda>tok q ov. Inl EVMRevertError)\<rparr>"

definition reverting_cycle :: UniswapLpCycle where
  "reverting_cycle =
     \<lparr>swap_pools = [pool_a, reverting_pool], cycle_id = ''reverting'', input_token = 1,
      max_input = 10, swap_vectors = example_vectors\<rparr>"

text \<open>
  A V3 pool over the initialised state whose swap calculation fails with an arithmetic
  error that is neither an \<open>EVMRevertError\<close> nor a \<open>LiquidityPoolError\<close>.
\<close>

definition faulting_pool :: pool where
  "faulting_pool =
     \<lparr>kind = V3LiquidityPool 3000, address = 19, token0 = 2, token1 = 1,
      state = V3State live_state,
      calculate_tokens_out_from_tokens_in = (\<lambda>tok q ov. Inl ZeroDivisionError)\<rparr>"

definition faulting_cycle :: UniswapLpCycle where
  "faulting_cycle =
     \<lparr>swap_pools = [pool_a, faulting_pool], cycle_id = ''faulting'', input_token = 1,
      max_input = 10, swap_vectors = example_vectors\<rparr>"

text \<open>A V2 pool over the tokens 7 and 8, which shares no token with the example pools.\<close>

definition pool_far :: pool where
  "pool_far = v2_pool 16 7 8 example_state (3 / 1000) (3 / 1000)"

text \<open>
  Two V2 pools whose exact product of prices and fee multipliers lies just below 1 while
  the product computed in doubles is 1.0.
\<close>

definition threshold_state_1 :: UniswapV2PoolState where
  "threshold_state_1 =
     \<lparr>reserves_token0 = 2859283617072598922296, reserves_token1 = 916898081308467996430\<rparr>"

definition threshold_state_2 :: UniswapV2PoolState where
  "threshold_state_2 =
     \<lparr>reserves_token0 = 9591641252307278824565, reserves_token1 = 30091149764903074330087\<rparr>"


section \<open>Properties of the constructor\<close>

lemma swap_vectors_loop_error:
  "swap_vectors_loop inp i t ps = Inl e \<Longrightarrow> e = ValueError"
  by (induction ps arbitrary: i t) (auto simp: Let_def split: if_splits sum.splits)

lemma swap_vectors_loop_length:
  "swap_vectors_loop inp i t ps = Inr vs \<Longrightarrow> length vs = length ps"
  by (induction ps arbitrary: i t vs) (auto simp: Let_def split: if_splits sum.splits)

lemma swap_vectors_loop_head:
  "swap_vectors_loop inp i t (p # ps) = Inr vs \<Longrightarrow>
     token_in (hd vs) = (if i = 0 then inp else t)"
  by (auto simp: Let_def split: if_splits sum.splits)

lemma swap_vectors_loop_chain:
  "swap_vectors_loop inp i t ps = Inr vs \<Longrightarrow> Suc k < length vs \<Longrightarrow>
     token_out (vs ! k) = token_in (vs ! Suc k)"
proof (induction ps arbitrary: i t vs k)
  case Nil
  then show ?case by simp
next
  case (Cons p ps)
  let ?prev = "if i = 0 then inp else t"
  show ?case
  proof (cases "?prev = token0 p")
    case True
    with Cons.prems(1) obtain ws where
      ws: "swap_vectors_loop inp (Suc i) (token1 p) ps = Inr ws" and
      vs: "vs = \<lparr>token_in = token0 p, token_out = token1 p, zero_for_one = True\<rparr> # ws"
      by (auto simp: Let_def split: sum.splits)
    show ?thesis
    proof (cases k)
      case 0
      with Cons.prems(2) vs obtain q qs where ps: "ps = q # qs"
        using swap_vectors_loop_length [OF ws] by (cases ps) auto
      from swap_vectors_loop_head [OF ws [unfolded ps]] 0 vs show ?thesis
        using Cons.prems(2) by (cases ws) auto
    next
      case (Suc j)
      with Cons.prems(2) vs have "Suc j < length ws" by simp
      from Cons.IH [OF ws this] Suc vs show ?thesis by simp
    qed
  next
    case False
    with Cons.prems(1) obtain ws where
      ws: "swap_vectors_loop inp (Suc i) (token0 p) ps = Inr ws" and
      vs: "vs = \<lparr>token_in = token1 p, token_out = token0 p, zero_for_one = False\<rparr> # ws"
      by (auto simp: Let_def split: sum.splits if_splits)
    show ?thesis
    proof (cases k)
      case 0
      with Cons.prems(2) vs obtain q qs where ps: "ps = q # qs"
        using swap_vectors_loop_length [OF ws] by (cases ps) auto
      from swap_vectors_loop_head [OF ws [unfolded ps]] 0 vs show ?thesis
        using Cons.prems(2) by (cases ws) auto
    next
      case (Suc j)
      with Cons.prems(2) vs have "Suc j < length ws" by simp
      from Cons.IH [OF ws this] Suc vs show ?thesis by simp
    qed
  qed
qed

lemma init_example:
  "UniswapLpCycle_init 1 [pool_a, pool_b] ''cycle'' (Some m) = ([], Inr (example_cycle m))"
  by (simp add: UniswapLpCycle_init_def pool_a_def pool_b_def v2_pool_def example_cycle_def
      example_vectors_def)

lemma swap_vectors_loop_append:
  "swap_vectors_loop inp i t (pre @ post) =
     (case swap_vectors_loop inp i t pre of
        Inl e \<Rightarrow> Inl e
      | Inr vs \<Rightarrow>
          (case swap_vectors_loop inp (i + length pre)
                  (if pre = [] then t else token_out (last vs)) post of
             Inl e \<Rightarrow> Inl e
           | Inr ws \<Rightarrow> Inr (vs @ ws)))"
proof (induction pre arbitrary: i t)
  case Nil
  then show ?case by (simp split: sum.splits)
next
  case (Cons p pre)
  define prev where "prev = (if i = 0 then inp else t)"
  have len: "\<And>u vs. swap_vectors_loop inp (Suc i) u pre = Inr vs \<Longrightarrow> pre = [] \<longleftrightarrow> vs = []"
    using swap_vectors_loop_length by fastforce
  show ?case
  proof (cases "prev = token0 p")
    case True
    then show ?thesis
      using Cons.IH [of "Suc i" "token1 p"] len [of "token1 p"]
      by (auto simp: prev_def [symmetric] Let_def split: sum.splits)
  next
    case False
    note not0 = this
    show ?thesis
    proof (cases "prev = token1 p")
      case True
      with not0 show ?thesis
        using Cons.IH [of "Suc i" "token0 p"] len [of "token0 p"]
        by (auto simp: prev_def [symmetric] Let_def split: sum.splits)
    next
      case False
      with not0 show ?thesis by (simp add: prev_def [symmetric] Let_def)
    qed
  qed
qed

lemma swap_vectors_loop_nth:
  "swap_vectors_loop inp i t ps = Inr vs \<Longrightarrow> k < length ps \<Longrightarrow>
     vs ! k = \<lparr>token_in = token0 (ps ! k), token_out = token1 (ps ! k), zero_for_one = True\<rparr> \<or>
     token1 (ps ! k) \<noteq> token0 (ps ! k) \<and>
     vs ! k = \<lparr>token_in = token1 (ps ! k), token_out = token0 (ps ! k), zero_for_one = False\<rparr>"
proof (induction ps arbitrary: i t vs k)
  case Nil
  then show ?case by simp
next
  case (Cons p ps)
  from Cons.prems(1) obtain v ws u where
    vs: "vs = v # ws" and ws: "swap_vectors_loop inp (Suc i) u ps = Inr ws" and
    v: "v = \<lparr>token_in = token0 p, token_out = token1 p, zero_for_one = True\<rparr> \<or>
        token1 p \<noteq> token0 p \<and>
        v = \<lparr>token_in = token1 p, token_out = token0 p, zero_for_one = False\<rparr>"
    by (auto simp: Let_def split: if_splits sum.splits)
  show ?case
  proof (cases k)
    case 0
    with vs v show ?thesis by simp
  next
    case (Suc j)
    with Cons.prems(2) have "j < length ps" by simp
    from Cons.IH [OF ws this] Suc vs show ?thesis by simp
  qed
qed

lemma swap_vectors_loop_failure:
  "swap_vectors_loop inp i t ps = Inl e \<Longrightarrow>
     \<exists>pre p post vs. ps = pre @ p # post \<and> swap_vectors_loop inp i t pre = Inr vs \<and>
       (if pre = [] then (if i = 0 then inp else t) else token_out (last vs)) \<noteq> token0 p \<and>
       (if pre = [] then (if i = 0 then inp else t) else token_out (last vs)) \<noteq> token1 p"
proof (induction ps arbitrary: e rule: rev_induct)
  case Nil
  then show ?case by simp
next
  case (snoc p ps)
  show ?case
  proof (cases "swap_vectors_loop inp i t ps")
    case (Inl e')
    from snoc.IH [OF Inl] obtain pre q post vs where
      "ps = pre @ q # post" "swap_vectors_loop inp i t pre = Inr vs"
      "(if pre = [] then (if i = 0 then inp else t) else token_out (last vs)) \<noteq> token0 q"
      "(if pre = [] then (if i = 0 then inp else t) else token_out (last vs)) \<noteq> token1 q"
      by blast
    then have "ps @ [p] = pre @ q # (post @ [p])" by simp
    with \<open>swap_vectors_loop inp i t pre = Inr vs\<close>
      \<open>(if pre = [] then (if i = 0 then inp else t) else token_out (last vs)) \<noteq> token0 q\<close>
      \<open>(if pre = [] then (if i = 0 then inp else t) else token_out (last vs)) \<noteq> token1 q\<close>
    show ?thesis by blast
  next
    case (Inr vs)
    with snoc.prems have
      "(case swap_vectors_loop inp (i + length ps)
              (if ps = [] then t else token_out (last vs)) [p] of
          Inl e \<Rightarrow> Inl e
        | Inr ws \<Rightarrow> Inr (vs @ ws)) = Inl e"
      by (simp only: swap_vectors_loop_append sum.case)
    then have last_hop:
      "swap_vectors_loop inp (i + length ps)
         (if ps = [] then t else token_out (last vs)) [p] = Inl e"
      by (cases "swap_vectors_loop inp (i + length ps)
            (if ps = [] then t else token_out (last vs)) [p]")
         (auto simp del: swap_vectors_loop.simps)
    have
      "(if ps = [] then (if i = 0 then inp else t) else token_out (last vs)) \<noteq> token0 p \<and>
       (if ps = [] then (if i = 0 then inp else t) else token_out (last vs)) \<noteq> token1 p"
    proof (cases "ps = []")
      case True
      with last_hop show ?thesis by (auto simp: Let_def split: if_splits)
    next
      case False
      then have "i + length ps \<noteq> 0" by simp
      with last_hop False show ?thesis by (auto simp: Let_def split: if_splits)
    qed
    with Inr show ?thesis by blast
  qed
qed

lemma swap_vectors_loop_mismatch:
  assumes "swap_vectors_loop inp 0 inp pre = Inr vs"
    and "(if pre = [] then inp else token_out (last vs)) \<noteq> token0 p"
    and "(if pre = [] then inp else token_out (last vs)) \<noteq> token1 p"
  shows "swap_vectors_loop inp 0 inp (pre @ p # post) = Inl ValueError"
  using assms by (cases "pre = []") (simp_all add: swap_vectors_loop_append Let_def)

lemma init_snd:
  "snd (UniswapLpCycle_init inp pools ident mi) =
     (case swap_vectors_loop inp 0 inp pools of
        Inl e \<Rightarrow> Inl e
      | Inr vs \<Rightarrow>
          Inr \<lparr>swap_pools = pools, cycle_id = ident, input_token = inp,
               max_input = (case mi of None \<Rightarrow> 100 * 10 ^ 18 | Some m \<Rightarrow> m),
               swap_vectors = vs\<rparr>)"
  by (simp add: UniswapLpCycle_init_def split: option.splits sum.splits)

text \<open>
  C4, as the constructor has it: a constructed cycle keeps the input token and the pools,
  has one vector per pool, its first vector takes the input token, each vector's
  \<open>token_out\<close> is the next vector's \<open>token_in\<close>, and each vector is one of the two
  directions of its own pool. The only failure is \<open>ValueError\<close>, and construction fails
  exactly when, at some position, the pools before it construct and the pool there holds
  neither the incoming token (the input token at the first position, the previous
  vector's \<open>token_out\<close> afterwards). The constructor makes no test that the last vector
  returns to the input token.
\<close>

theorem init_swap_vectors_chain:
  "(\<forall>c. snd (UniswapLpCycle_init inp pools ident mi) = Inr c \<longrightarrow>
      input_token c = inp \<and> swap_pools c = pools \<and>
      length (swap_vectors c) = length pools \<and>
      (pools \<noteq> [] \<longrightarrow> token_in (swap_vectors c ! 0) = inp) \<and>
      (\<forall>i. Suc i < length pools \<longrightarrow>
         token_out (swap_vectors c ! i) = token_in (swap_vectors c ! Suc i)) \<and>
      (\<forall>i. i < length pools \<longrightarrow>
         swap_vectors c ! i =
           (if token_in (swap_vectors c ! i) = token0 (pools ! i)
            then \<lparr>token_in = token0 (pools ! i), token_out = token1 (pools ! i),
                  zero_for_one = True\<rparr>
            else \<lparr>token_in = token1 (pools ! i), token_out = token0 (pools ! i),
                  zero_for_one = False\<rparr>))) \<and>
   (\<forall>e. snd (UniswapLpCycle_init inp pools ident mi) = Inl e \<longrightarrow> e = ValueError) \<and>
   (snd (UniswapLpCycle_init inp pools ident mi) = Inl ValueError) =
     (\<exists>pre p post c'.
        pools = pre @ p # post \<and>
        snd (UniswapLpCycle_init inp pre ident mi) = Inr c' \<and>
        (if pre = [] then inp else token_out (last (swap_vectors c'))) \<noteq> token0 p \<and>
        (if pre = [] then inp else token_out (last (swap_vectors c'))) \<noteq> token1 p)"
proof (intro conjI allI impI)
  fix c assume c: "snd (UniswapLpCycle_init inp pools ident mi) = Inr c"
  then obtain vs where vs: "swap_vectors_loop inp 0 inp pools = Inr vs"
    and sv: "swap_vectors c = vs" and "input_token c = inp" "swap_pools c = pools"
    by (auto simp: init_snd split: sum.splits)
  then show "input_token c = inp" "swap_pools c = pools" by simp_all
  show len: "length (swap_vectors c) = length pools"
    using swap_vectors_loop_length [OF vs] sv by simp
  { assume "pools \<noteq> []"
    then obtain p ps where "pools = p # ps" by (cases pools) auto
    with vs swap_vectors_loop_head [of inp 0 inp p ps vs] len sv
    show "token_in (swap_vectors c ! 0) = inp"
      by (cases vs) auto }
  { fix i assume "Suc i < length pools"
    with len sv swap_vectors_loop_chain [OF vs, of i]
    show "token_out (swap_vectors c ! i) = token_in (swap_vectors c ! Suc i)" by simp }
  { fix i assume "i < length pools"
    from swap_vectors_loop_nth [OF vs this] have
      "vs ! i = \<lparr>token_in = token0 (pools ! i), token_out = token1 (pools ! i),
                zero_for_one = True\<rparr> \<or>
       token1 (pools ! i) \<noteq> token0 (pools ! i) \<and>
       vs ! i = \<lparr>token_in = token1 (pools ! i), token_out = token0 (pools ! i),
                zero_for_one = False\<rparr>" .
    then have "vs ! i =
           (if token_in (vs ! i) = token0 (pools ! i)
            then \<lparr>token_in = token0 (pools ! i), token_out = token1 (pools ! i),
                  zero_for_one = True\<rparr>
            else \<lparr>token_in = token1 (pools ! i), token_out = token0 (pools ! i),
                  zero_for_one = False\<rparr>)"
    proof
      assume a: "vs ! i = \<lparr>token_in = token0 (pools ! i), token_out = token1 (pools ! i),
                zero_for_one = True\<rparr>"
      then show ?thesis by simp
    next
      assume b: "token1 (pools ! i) \<noteq> token0 (pools ! i) \<and>
       vs ! i = \<lparr>token_in = token1 (pools ! i), token_out = token0 (pools ! i),
                zero_for_one = False\<rparr>"
      then show ?thesis by simp
    qed
    with sv show "swap_vectors c ! i =
           (if token_in (swap_vectors c ! i) = token0 (pools ! i)
            then \<lparr>token_in = token0 (pools ! i), token_out = token1 (pools ! i),
                  zero_for_one = True\<rparr>
            else \<lparr>token_in = token1 (pools ! i), token_out = token0 (pools ! i),
                  zero_for_one = False\<rparr>)"
      by (simp only:) }
next
  fix e assume "snd (UniswapLpCycle_init inp pools ident mi) = Inl e"
  then have "swap_vectors_loop inp 0 inp pools = Inl e"
    by (auto simp: init_snd split: sum.splits)
  then show "e = ValueError" by (rule swap_vectors_loop_error)
next
  show "(snd (UniswapLpCycle_init inp pools ident mi) = Inl ValueError) =
     (\<exists>pre p post c'.
        pools = pre @ p # post \<and>
        snd (UniswapLpCycle_init inp pre ident mi) = Inr c' \<and>
        (if pre = [] then inp else token_out (last (swap_vectors c'))) \<noteq> token0 p \<and>
        (if pre = [] then inp else token_out (last (swap_vectors c'))) \<noteq> token1 p)"
  proof
    assume "snd (UniswapLpCycle_init inp pools ident mi) = Inl ValueError"
    then have "swap_vectors_loop inp 0 inp pools = Inl ValueError"
      by (auto simp: init_snd split: sum.splits)
    from swap_vectors_loop_failure [OF this] have
      "\<exists>pre p post vs. pools = pre @ p # post \<and> swap_vectors_loop inp 0 inp pre = Inr vs \<and>
         (if pre = [] then inp else token_out (last vs)) \<noteq> token0 p \<and>
         (if pre = [] then inp else token_out (last vs)) \<noteq> token1 p"
      by (simp only: if_cancel)
    then obtain pre p post vs where
      split: "pools = pre @ p # post" and pre: "swap_vectors_loop inp 0 inp pre = Inr vs" and
      bad: "(if pre = [] then inp else token_out (last vs)) \<noteq> token0 p"
        "(if pre = [] then inp else token_out (last vs)) \<noteq> token1 p"
      by blast
    let ?c = "\<lparr>swap_pools = pre, cycle_id = ident, input_token = inp,
               max_input = (case mi of None \<Rightarrow> 100 * 10 ^ 18 | Some m \<Rightarrow> m),
               swap_vectors = vs\<rparr>"
    from pre have "snd (UniswapLpCycle_init inp pre ident mi) = Inr ?c"
      by (simp add: init_snd)
    moreover have "swap_vectors ?c = vs" by simp
    ultimately show "\<exists>pre p post c'.
        pools = pre @ p # post \<and>
        snd (UniswapLpCycle_init inp pre ident mi) = Inr c' \<and>
        (if pre = [] then inp else token_out (last (swap_vectors c'))) \<noteq> token0 p \<and>
        (if pre = [] then inp else token_out (last (swap_vectors c'))) \<noteq> token1 p"
      using split bad by metis
  next
    assume "\<exists>pre p post c'.
        pools = pre @ p # post \<and>
        snd (UniswapLpCycle_init inp pre ident mi) = Inr c' \<and>
        (if pre = [] then inp else token_out (last (swap_vectors c'))) \<noteq> token0 p \<and>
        (if pre = [] then inp else token_out (last (swap_vectors c'))) \<noteq> token1 p"
    then obtain pre p post c' where
      split: "pools = pre @ p # post" and
      c': "snd (UniswapLpCycle_init inp pre ident mi) = Inr c'" and
      bad: "(if pre = [] then inp else token_out (last (swap_vectors c'))) \<noteq> token0 p"
        "(if pre = [] then inp else token_out (last (swap_vectors c'))) \<noteq> token1 p"
      by blast
    from c' obtain vs where pre: "swap_vectors_loop inp 0 inp pre = Inr vs"
      and sv: "swap_vectors c' = vs"
      by (auto simp: init_snd split: sum.splits)
    from swap_vectors_loop_mismatch [OF pre bad [unfolded sv]] split
    have "swap_vectors_loop inp 0 inp pools = Inl ValueError" by simp
    then show "snd (UniswapLpCycle_init inp pools ident mi) = Inl ValueError"
      by (simp add: init_snd)
  qed
qed

lemma init_single: "snd (UniswapLpCycle_init 1 [pool_a] ''open'' (Some 5)) = Inr single_cycle"
  by (simp add: UniswapLpCycle_init_def pool_a_def v2_pool_def single_cycle_def)

theorem init_swap_vectors_chain_witness:
  "snd (UniswapLpCycle_init 1 [pool_a, pool_b] ''cycle'' (Some 2)) = Inr (example_cycle 2) \<and>
   input_token (example_cycle 2) = 1 \<and>
   length (swap_vectors (example_cycle 2)) = 2 \<and>
   token_in (swap_vectors (example_cycle 2) ! 0) = 1 \<and>
   token_out (swap_vectors (example_cycle 2) ! 0) =
     token_in (swap_vectors (example_cycle 2) ! Suc 0) \<and>
   swap_vectors (example_cycle 2) ! 1 =
     \<lparr>token_in = token0 pool_b, token_out = token1 pool_b, zero_for_one = True\<rparr> \<and>
   [pool_a, pool_far] = [pool_a] @ pool_far # [] \<and>
   snd (UniswapLpCycle_init 1 [pool_a] ''open'' (Some 5)) = Inr single_cycle \<and>
   token_out (last (swap_vectors single_cycle)) = 2 \<and>
   token0 pool_far = 7 \<and> token1 pool_far = 8 \<and>
   snd (UniswapLpCycle_init 1 [pool_a, pool_far] ''open'' (Some 5)) = Inl ValueError"
proof -
  have ok: "snd (UniswapLpCycle_init 1 [pool_a, pool_b] ''cycle'' (Some 2)) =
      Inr (example_cycle 2)"
    using init_example [of 2] by simp
  have tokens: "token0 pool_b = 2" "token1 pool_b = 1" "token0 pool_far = 7"
    "token1 pool_far = 8" "token_out (last (swap_vectors single_cycle)) = 2"
    by (simp_all add: pool_b_def pool_far_def v2_pool_def single_cycle_def)
  from init_swap_vectors_chain [of 1 "[pool_a, pool_b]" "''cycle''" "Some 2"] ok
  have good: "input_token (example_cycle 2) = 1 \<and>
    length (swap_vectors (example_cycle 2)) = 2 \<and>
    token_in (swap_vectors (example_cycle 2) ! 0) = 1 \<and>
    token_out (swap_vectors (example_cycle 2) ! 0) =
      token_in (swap_vectors (example_cycle 2) ! Suc 0)"
    by simp
  have nth: "swap_vectors (example_cycle 2) ! 1 =
     \<lparr>token_in = token0 pool_b, token_out = token1 pool_b, zero_for_one = True\<rparr>"
    by (simp add: example_cycle_def example_vectors_def tokens)
  have split: "[pool_a, pool_far] = [pool_a] @ pool_far # []" by simp
  have bad: "(if [pool_a] = [] then 1 else token_out (last (swap_vectors single_cycle)))
       \<noteq> token0 pool_far"
    "(if [pool_a] = [] then 1 else token_out (last (swap_vectors single_cycle)))
       \<noteq> token1 pool_far"
    by (simp_all add: tokens)
  from init_swap_vectors_chain [of 1 "[pool_a, pool_far]" "''open''" "Some 5"]
  have "(snd (UniswapLpCycle_init 1 [pool_a, pool_far] ''open'' (Some 5)) = Inl ValueError) =
     (\<exists>pre p post c'.
        [pool_a, pool_far] = pre @ p # post \<and>
        snd (UniswapLpCycle_init 1 pre ''open'' (Some 5)) = Inr c' \<and>
        (if pre = [] then 1 else token_out (last (swap_vectors c'))) \<noteq> token0 p \<and>
        (if pre = [] then 1 else token_out (last (swap_vectors c'))) \<noteq> token1 p)"
    by blast
  with split init_single bad
  have fail: "snd (UniswapLpCycle_init 1 [pool_a, pool_far] ''open'' (Some 5)) = Inl ValueError"
    by blast
  from ok good nth split init_single tokens fail show ?thesis by simp
qed

text \<open>
  C4 as stated fails: the one-pool path from token 1 through a pool over tokens 1 and 2
  is constructed, and its last vector ends on token 2, not on the input token.
\<close>

theorem init_closure_counterexample:
  "snd (UniswapLpCycle_init 1 [pool_a] ''open'' (Some 5)) = Inr single_cycle \<and>
   token_out (last (swap_vectors single_cycle)) = 2 \<and>
   input_token single_cycle = 1"
  by (simp add: UniswapLpCycle_init_def pool_a_def v2_pool_def single_cycle_def)

section \<open>Properties of the double arithmetic\<close>

lemma bit_length_nonneg: "0 \<le> bit_length a"
  by (induction a rule: bit_length.induct) (simp add: bit_length.simps)

lemma bit_length_pos: "0 < a \<Longrightarrow> 0 < bit_length a"
  using bit_length_nonneg [of "a div 2"] by (simp add: bit_length.simps [of a])

lemma bit_length_bounds:
  "0 < a \<Longrightarrow> 2 ^ nat (bit_length a - 1) \<le> a \<and> a < 2 ^ nat (bit_length a)"
proof (induction a rule: bit_length.induct)
  case (1 a)
  let ?h = "a div 2"
  from "1.prems" have step: "bit_length a = 1 + bit_length ?h"
    by (simp add: bit_length.simps [of a])
  show ?case
  proof (cases "0 < ?h")
    case False
    with "1.prems" have "a = 1" by linarith
    then show ?thesis by (simp add: bit_length.simps)
  next
    case True
    from "1.prems" have "\<not> a \<le> 0" by simp
    from "1.IH" [OF this True] have
      lo: "2 ^ nat (bit_length ?h - 1) \<le> ?h" and hi: "?h < 2 ^ nat (bit_length ?h)"
      by simp_all
    from bit_length_pos [OF True] have
      suc: "nat (bit_length ?h) = Suc (nat (bit_length ?h - 1))" by simp
    have "(2::int) ^ nat (bit_length ?h) = 2 * 2 ^ nat (bit_length ?h - 1)"
      by (subst suc) simp
    also have "\<dots> \<le> 2 * ?h" using lo by simp
    also have "\<dots> \<le> a" by simp
    finally have low: "2 ^ nat (bit_length a - 1) \<le> a" by (simp add: step)
    from hi have "?h + 1 \<le> 2 ^ nat (bit_length ?h)" by simp
    then have "2 * (?h + 1) \<le> 2 * 2 ^ nat (bit_length ?h)" by simp
    moreover have "a < 2 * (?h + 1)" by presburger
    moreover from bit_length_nonneg [of ?h] have
      "nat (bit_length a) = Suc (nat (bit_length ?h))" by (simp add: step)
    ultimately have "a < 2 ^ nat (bit_length a)" by simp
    with low show ?thesis by simp
  qed
qed

lemma binary_exponent_le:
  assumes "0 < y"
  shows "2 powi binary_exponent y \<le> y"
proof -
  obtain a b where q: "quotient_of y = (a, b)" by (cases "quotient_of y")
  from quotient_of_denom_pos [OF q] have b: "0 < b" .
  from quotient_of_div [OF q] have y: "y = of_int a / of_int b" .
  with assms b have a: "0 < a" by (simp add: zero_less_divide_iff)
  let ?k = "bit_length a - bit_length b"
  show ?thesis
  proof (cases "2 powi ?k \<le> y")
    case True
    with q show ?thesis by (simp add: binary_exponent_def)
  next
    case False
    from bit_length_bounds [OF a] have "2 ^ nat (bit_length a - 1) \<le> a" by simp
    then have lo: "(2::rat) ^ nat (bit_length a - 1) \<le> of_int a"
      by (metis of_int_le_iff of_int_numeral of_int_power)
    from bit_length_bounds [OF b] have "b < 2 ^ nat (bit_length b)" by simp
    then have hi: "of_int b \<le> (2::rat) ^ nat (bit_length b)"
      by (metis less_imp_le of_int_le_iff of_int_numeral of_int_power)
    have "(2::rat) powi (?k - 1) = 2 powi (bit_length a - 1) / 2 powi bit_length b"
      using power_int_diff [of "2::rat" "bit_length a - 1" "bit_length b"]
      by (simp add: algebra_simps)
    also have "\<dots> = 2 ^ nat (bit_length a - 1) / 2 ^ nat (bit_length b)"
      using bit_length_pos [OF a] bit_length_nonneg [of b]
      by (simp add: power_int_nonneg_exp)
    also have "\<dots> \<le> of_int a / of_int b"
    proof (rule frac_le)
      show "0 \<le> (of_int a :: rat)" using a by simp
      show "(2::rat) ^ nat (bit_length a - 1) \<le> of_int a" by (rule lo)
      show "0 < (of_int b :: rat)" using b by simp
      show "of_int b \<le> (2::rat) ^ nat (bit_length b)" by (rule hi)
    qed
    finally have "2 powi (?k - 1) \<le> y" using y by simp
    with False q show ?thesis by (simp add: binary_exponent_def)
  qed
qed

lemma py_round_ge: "1 \<le> m \<Longrightarrow> 1 \<le> py_round m"
proof -
  assume "1 \<le> m"
  then have "1 \<le> \<lfloor>m\<rfloor>" by (simp add: le_floor_iff)
  then show ?thesis by (auto simp: py_round_def Let_def)
qed

lemma round_double_eq_0_iff: "round_double x = 0 \<longleftrightarrow> x = 0"
proof
  assume r: "round_double x = 0"
  show "x = 0"
  proof (rule ccontr)
    assume nz: "x \<noteq> 0"
    let ?q = "binary_exponent \<bar>x\<bar> - 52"
    from nz have pos: "0 < \<bar>x\<bar>" by simp
    have "(2::rat) powi ?q \<le> 2 powi binary_exponent \<bar>x\<bar>"
      by (intro power_int_increasing) simp_all
    also have "\<dots> \<le> \<bar>x\<bar>" by (rule binary_exponent_le [OF pos])
    finally have "1 \<le> \<bar>x\<bar> / 2 powi ?q"
      by (simp add: le_divide_eq power_int_def)
    from py_round_ge [OF this] have "py_round (\<bar>x\<bar> / 2 powi ?q) \<noteq> 0" by simp
    with nz r show False by (simp add: round_double_def Let_def sgn_eq_0_iff)
  qed
next
  assume "x = 0"
  then show "round_double x = 0" by (simp add: round_double_def)
qed

lemma round_double_0: "round_double 0 = 0"
  by (simp add: round_double_def)

lemma float_of_int_0: "float_of_int 0 = 0"
  by (simp add: float_of_int_def round_double_0)

lemma float_mul_1: "float_mul 1 (round_double x) = round_double (round_double x)"
  by (simp add: float_mul_def)

section \<open>Properties of the pre-calculation check\<close>

lemma fee_multiplier_eq: "fee_multiplier fee = round_double (1 - fee)"
proof -
  obtain n d where q: "quotient_of fee = (n, d)" by (cases "quotient_of fee")
  then have d: "0 < d" and f: "fee = of_int n / of_int d"
    using quotient_of_denom_pos [OF q] quotient_of_div [OF q] by simp_all
  from d have "(of_int (d - n) :: rat) / of_int d = 1 - of_int n / of_int d"
    by (simp add: diff_divide_distrib)
  with q f show ?thesis by (simp add: fee_multiplier_def int_true_div_def)
qed

lemma v2_liquidity_check_quotient:
  "v2_liquidity_check s zfo = Inr q \<Longrightarrow> q = exact_price (V2State s) \<and> q \<noteq> 0"
  by (auto simp: v2_liquidity_check_def exact_price_def split: if_splits)

lemma v3_liquidity_check_quotient:
  "v3_liquidity_check s zfo = Inr q \<Longrightarrow> q = exact_price (V3State s) \<and> q \<noteq> 0"
  by (auto simp: v3_liquidity_check_def exact_price_def power_divide split: if_splits)

lemma hop_quotient_Inr:
  "hop_quotient p v st = Inr q \<Longrightarrow> q = exact_price st \<and> q \<noteq> 0"
  by (auto simp: hop_quotient_def split: pool_kind.splits pool_state.splits
      dest: v2_liquidity_check_quotient v3_liquidity_check_quotient)

lemma hop_price_Inr:
  "hop_price p v st = Inr price \<Longrightarrow> price = spec_price st \<and> price \<noteq> 0"
  by (auto simp: hop_price_def spec_price_def round_double_eq_0_iff split: sum.splits
      dest: hop_quotient_Inr)

lemma v2_liquidity_check_Inl: "v2_liquidity_check s zfo = Inl e \<Longrightarrow> e = ZeroLiquidityError"
  by (auto simp: v2_liquidity_check_def split: if_splits)

lemma v3_liquidity_check_Inl: "v3_liquidity_check s zfo = Inl e \<Longrightarrow> e = ZeroLiquidityError"
  by (auto simp: v3_liquidity_check_def split: if_splits)


lemma hop_price_Inl:
  "hop_typed so (p, v) \<Longrightarrow> hop_price p v (effective_state so p) = Inl e \<Longrightarrow>
     e = ZeroLiquidityError"
  by (auto simp: hop_price_def hop_quotient_def hop_typed_def
      split: sum.splits pool_kind.splits pool_state.splits
      dest: v2_liquidity_check_Inl v3_liquidity_check_Inl)

lemma pre_check_loop_liquid:
  "list_all (hop_liquid so) hops \<Longrightarrow>
     pre_check_loop so pf hops = Inr (foldl float_mul pf (map (spec_hop_factor so) hops))"
proof (induction hops arbitrary: pf)
  case Nil
  then show ?case by simp
next
  case (Cons h hops)
  obtain p v where h: "h = (p, v)" by (cases h)
  from Cons.prems h obtain price where
    price: "hop_price p v (effective_state so p) = Inr price"
    by (auto simp: hop_liquid_def split: sum.splits)
  from hop_price_Inr [OF price] have
    eq: "price = spec_price (effective_state so p)" and nz: "price \<noteq> 0" by simp_all
  from Cons.prems have rest: "list_all (hop_liquid so) hops" by simp
  show ?case
    using price nz eq Cons.IH [OF rest] h
    by (simp add: spec_hop_factor_def fee_multiplier_eq Let_def)
qed

lemma pre_check_loop_illiquid:
  "\<not> list_all (hop_liquid so) hops \<Longrightarrow> list_all (hop_typed so) hops \<Longrightarrow>
     pre_check_loop so pf hops = Inl ZeroLiquidityError"
proof (induction hops arbitrary: pf)
  case Nil
  then show ?case by simp
next
  case (Cons h hops)
  obtain p v where h: "h = (p, v)" by (cases h)
  show ?case
  proof (cases "hop_price p v (effective_state so p)")
    case (Inl e)
    from Cons.prems(2) h hop_price_Inl [OF _ Inl] have "e = ZeroLiquidityError" by simp
    with Inl h show ?thesis by simp
  next
    case (Inr price)
    from hop_price_Inr [OF Inr] have nz: "price \<noteq> 0" by simp
    from Inr h have "hop_liquid so h" by (simp add: hop_liquid_def)
    with Cons.prems have "\<not> list_all (hop_liquid so) hops" "list_all (hop_typed so) hops"
      by simp_all
    from Cons.IH [OF this] Inr nz h show ?thesis by simp
  qed
qed


lemma pre_calculation_check_liquid:
  assumes "sort_overrides ovs = Inr so"
    and "list_all (hop_liquid so) (zip (swap_pools c) (swap_vectors c))"
  shows "pre_calculation_check c ovs =
     (if spec_profit_factor so (zip (swap_pools c) (swap_vectors c)) < 1
      then Inl (ArbitrageError NoProfitableArbitrage) else Inr ())"
  using assms pre_check_loop_liquid [OF assms(2), of 1]
  by (simp add: pre_calculation_check_def spec_profit_factor_def)

lemma pre_calculation_check_illiquid:
  assumes "sort_overrides ovs = Inr so"
    and "\<not> list_all (hop_liquid so) (zip (swap_pools c) (swap_vectors c))"
    and "list_all (hop_typed so) (zip (swap_pools c) (swap_vectors c))"
  shows "pre_calculation_check c ovs = Inl ZeroLiquidityError"
  using assms pre_check_loop_illiquid [OF assms(2,3), of 1]
  by (simp add: pre_calculation_check_def)




lemmas example_defs =
  example_cycle_def example_vectors_def pool_a_def pool_b_def v2_pool_def example_state_def
  hop_liquid_def hop_typed_def hop_price_def hop_quotient_def effective_state_def
  v2_liquidity_check_def
  v3_liquidity_check_def balanced_map_def balanced_state_def

lemmas factor_defs =
  spec_profit_factor_def spec_hop_factor_def spec_price_def exact_price_def hop_fee_def


lemma example_liquid_empty:
  "list_all (hop_liquid Map.empty) (zip (swap_pools (example_cycle m)) (swap_vectors (example_cycle m)))"
  by (simp add: example_defs)


lemma example_factor_empty:
  "\<not> spec_profit_factor Map.empty (zip (swap_pools (example_cycle m)) (swap_vectors (example_cycle m))) < 1"
  by (simp add: example_defs factor_defs) code_simp







lemma threshold_exact_product:
  "exact_price (V2State threshold_state_1) * (1 - 3 / 1000) *
     (exact_price (V2State threshold_state_2) * (1 - 3 / 1000)) < 1"
  by (simp add: exact_price_def threshold_state_1_def threshold_state_2_def)




lemma illiquid_member:
  "h \<in> set hops \<Longrightarrow> \<not> hop_liquid so h \<Longrightarrow> \<not> list_all (hop_liquid so) hops"
  by (auto simp: list_all_iff)

lemma pre_calculation_check_typed:
  assumes "sort_overrides ovs = Inr so"
    and "list_all (hop_typed so) (zip (swap_pools c) (swap_vectors c))"
  shows "pre_calculation_check c ovs = Inr () \<or>
         pre_calculation_check c ovs = Inl (ArbitrageError NoProfitableArbitrage) \<or>
         pre_calculation_check c ovs = Inl ZeroLiquidityError"
proof (cases "list_all (hop_liquid so) (zip (swap_pools c) (swap_vectors c))")
  case True
  from pre_calculation_check_liquid [OF assms(1) True] show ?thesis by simp
next
  case False
  from pre_calculation_check_illiquid [OF assms(1) False assms(2)] show ?thesis by simp
qed

text \<open>
  C6: with supported overrides and every hop reading a state of its pool's class, the
  check ends in one of three ways: it passes, it fails as unprofitable, or it fails with
  \<open>ZeroLiquidityError\<close>. It fails with \<open>ZeroLiquidityError\<close> whenever some V3 hop has
  \<open>sqrt_price_x96 = 0\<close>, an empty \<open>tick_bitmap\<close>, or \<open>liquidity = 0\<close> with the price at
  \<open>MIN_SQRT_RATIO + 1\<close> (zero-for-one) or \<open>MAX_SQRT_RATIO - 1\<close> (one-for-zero); and a V3
  hop is rejected in exactly these cases.
\<close>

theorem v3_zero_liquidity:
  assumes "sort_overrides ovs = Inr so"
    and "list_all (hop_typed so) (zip (swap_pools c) (swap_vectors c))"
  shows "(pre_calculation_check c ovs = Inr () \<or>
          pre_calculation_check c ovs = Inl (ArbitrageError NoProfitableArbitrage) \<or>
          pre_calculation_check c ovs = Inl ZeroLiquidityError) \<and>
         (\<forall>p v f s.
            (p, v) \<in> set (zip (swap_pools c) (swap_vectors c)) \<and>
            kind p = V3LiquidityPool f \<and> effective_state so p = V3State s \<and>
            (sqrt_price_x96 s = 0 \<or> tick_bitmap s = [] \<or>
             liquidity s = 0 \<and>
               sqrt_price_x96 s =
                 (if zero_for_one v then MIN_SQRT_RATIO + 1 else MAX_SQRT_RATIO - 1)) \<longrightarrow>
            pre_calculation_check c ovs = Inl ZeroLiquidityError) \<and>
         (\<forall>s zfo.
            (v3_liquidity_check s zfo = Inl ZeroLiquidityError) =
            (sqrt_price_x96 s = 0 \<or> tick_bitmap s = [] \<or>
             liquidity s = 0 \<and>
               sqrt_price_x96 s = (if zfo then MIN_SQRT_RATIO + 1 else MAX_SQRT_RATIO - 1)))"
proof (intro conjI allI impI)
  show "pre_calculation_check c ovs = Inr () \<or>
        pre_calculation_check c ovs = Inl (ArbitrageError NoProfitableArbitrage) \<or>
        pre_calculation_check c ovs = Inl ZeroLiquidityError"
    by (rule pre_calculation_check_typed [OF assms])
next
  fix p v f s
  assume h: "(p, v) \<in> set (zip (swap_pools c) (swap_vectors c)) \<and>
     kind p = V3LiquidityPool f \<and> effective_state so p = V3State s \<and>
     (sqrt_price_x96 s = 0 \<or> tick_bitmap s = [] \<or>
      liquidity s = 0 \<and>
        sqrt_price_x96 s = (if zero_for_one v then MIN_SQRT_RATIO + 1 else MAX_SQRT_RATIO - 1))"
  then have "\<not> hop_liquid so (p, v)"
    by (auto simp: hop_liquid_def hop_price_def hop_quotient_def v3_liquidity_check_def
        split: if_splits)
  with h have "\<not> list_all (hop_liquid so) (zip (swap_pools c) (swap_vectors c))"
    using illiquid_member by blast
  from pre_calculation_check_illiquid [OF assms(1) this assms(2)]
  show "pre_calculation_check c ovs = Inl ZeroLiquidityError" .
next
  fix s zfo
  show "(v3_liquidity_check s zfo = Inl ZeroLiquidityError) =
        (sqrt_price_x96 s = 0 \<or> tick_bitmap s = [] \<or>
         liquidity s = 0 \<and>
           sqrt_price_x96 s = (if zfo then MIN_SQRT_RATIO + 1 else MAX_SQRT_RATIO - 1))"
    by (auto simp: v3_liquidity_check_def)
qed

theorem v3_zero_liquidity_witness:
  "sort_overrides None = Inr Map.empty \<and>
   list_all (hop_typed Map.empty) (zip (swap_pools v3_cycle) (swap_vectors v3_cycle)) \<and>
   kind pool_v3 = V3LiquidityPool 3000 \<and>
   effective_state Map.empty pool_v3 = V3State uninitialised_state \<and>
   sqrt_price_x96 uninitialised_state = 0 \<and>
   pre_calculation_check v3_cycle None = Inl ZeroLiquidityError"
proof -
  have none: "sort_overrides None = Inr Map.empty" by (simp add: sort_overrides_def)
  have typed: "list_all (hop_typed Map.empty) (zip (swap_pools v3_cycle) (swap_vectors v3_cycle))"
    by (simp add: v3_cycle_def pool_v3_def echo_pool_def example_defs)
  have hop: "(pool_v3, \<lparr>token_in = 2, token_out = 1, zero_for_one = True\<rparr>)
      \<in> set (zip (swap_pools v3_cycle) (swap_vectors v3_cycle))"
    by (simp add: v3_cycle_def example_vectors_def)
  have facts: "kind pool_v3 = V3LiquidityPool 3000"
    "effective_state Map.empty pool_v3 = V3State uninitialised_state"
    "sqrt_price_x96 uninitialised_state = 0"
    by (simp_all add: pool_v3_def echo_pool_def effective_state_def uninitialised_state_def)
  from v3_zero_liquidity [OF none typed] hop facts
  have "pre_calculation_check v3_cycle None = Inl ZeroLiquidityError" by blast
  with none typed facts show ?thesis by simp
qed



section \<open>Properties of the swap amount records\<close>

lemma quotient_of_default_fee: "quotient_of (3 / 1000) = (3, 1000)"
proof -
  have "gcd (3::int) 1000 = 1" by code_simp
  then have "quotient_of (Fract 3 1000) = (3, 1000)"
    by (simp add: quotient_of_Fract Rat.normalize_def)
  then show ?thesis by (simp add: Fract_of_int_quotient)
qed

lemma v2_amount_out_default:
  "x \<noteq> 0 \<Longrightarrow> rin \<noteq> 0 \<Longrightarrow> rout \<noteq> 0 \<Longrightarrow>
     v2_amount_out rin rout (3 / 1000) x = Inr ((x * 997 * rout) div (rin * 1000 + x * 997))"
  by (simp add: v2_amount_out_def quotient_of_default_fee Let_def)

text \<open>
  Why the pre-calculation check rejects a V2 hop whose output side holds one unit: on the
  modelled V2 formula such a hop yields 0 for every positive input.
\<close>

lemma v2_last_unit_no_output:
  assumes "0 < x" and "0 < rin"
  shows "v2_amount_out rin 1 (3 / 1000) x = Inr 0"
proof -
  have "0 \<le> x * 997" "x * 997 < rin * 1000 + x * 997"
    using assms by simp_all
  then have "(x * 997) div (rin * 1000 + x * 997) = 0"
    by (rule div_pos_pos_trivial)
  with assms show ?thesis by (simp add: v2_amount_out_default)
qed

text \<open>The first two end-to-end scenarios of the specification, on the modelled V2 formula.\<close>

lemma spec_scenario_1:
  "v2_amount_out 16231137593 2571336301536722443178 (3 / 1000) 8000000000 =
     Inr 847228560678214929944"
  by (simp add: v2_amount_out_default)

lemma spec_scenario_2:
  "v2_amount_out 2571336301536722443178 16231137593 (3 / 1000) 1200000000000000000000 =
     Inr 5154005339"
  by (simp add: v2_amount_out_default)

lemma build_amounts_out_loop_append:
  "build_amounts_out_loop so i tiq toq (pre @ post) =
     (case build_amounts_out_loop so i tiq toq pre of
        Inl e \<Rightarrow> Inl e
      | Inr (recs1, q1) \<Rightarrow>
          (case build_amounts_out_loop so (i + length pre) tiq q1 post of
             Inl e \<Rightarrow> Inl e
           | Inr (recs2, q2) \<Rightarrow> Inr (recs1 @ recs2, q2)))"
proof (induction pre arbitrary: i toq)
  case Nil
  then show ?case by (simp split: sum.splits)
next
  case (Cons h pre)
  obtain p v where h: "h = (p, v)" by (cases h)
  define q where "q = (if i = 0 then tiq else toq)"
  show ?case
  proof (cases "calculate_tokens_out_from_tokens_in p (token_in v) q (so (address p))")
    case (Inl e)
    then show ?thesis using h by (simp add: q_def [symmetric])
  next
    case (Inr out)
    show ?thesis
    proof (cases "out = 0")
      case True
      with Inr h show ?thesis by (simp add: q_def [symmetric])
    next
      case False
      with Inr h Cons.IH [of "Suc i" out] show ?thesis
        by (simp add: q_def [symmetric] split: sum.splits prod.splits)
    qed
  qed
qed

lemma build_amounts_out_loop_length:
  "build_amounts_out_loop so i tiq toq hops = Inr (recs, q) \<Longrightarrow> length recs = length hops"
proof (induction hops arbitrary: i toq recs q)
  case Nil
  then show ?case by simp
next
  case (Cons h hops)
  obtain p v where h: "h = (p, v)" by (cases h)
  from Cons.prems h show ?case
    by (auto simp: Let_def split: sum.splits if_splits prod.splits dest: Cons.IH)
qed

lemma build_amounts_out_loop_nonzero:
  "build_amounts_out_loop so i tiq toq hops = Inr (recs, q) \<Longrightarrow>
     UniswapV2PoolSwapAmounts (0, 0) \<notin> set recs"
proof (induction hops arbitrary: i toq recs q)
  case Nil
  then show ?case by simp
next
  case (Cons h hops)
  obtain p v where h: "h = (p, v)" by (cases h)
  define qin where "qin = (if i = 0 then tiq else toq)"
  from Cons.prems h obtain out recs' where
    out: "calculate_tokens_out_from_tokens_in p (token_in v) qin (so (address p)) = Inr out"
      "out \<noteq> 0" and
    rest: "build_amounts_out_loop so (Suc i) tiq out hops = Inr (recs', q)" and
    recs: "recs = hop_record p v qin out # recs'"
    by (auto simp: qin_def [symmetric] split: sum.splits if_splits prod.splits)
  from out(2) have "hop_record p v qin out \<noteq> UniswapV2PoolSwapAmounts (0, 0)"
    by (auto simp: hop_record_def split: pool_kind.splits)
  with Cons.IH [OF rest] recs show ?case by auto
qed

lemma build_amounts_out_loop_head:
  "build_amounts_out_loop so i tiq toq ((p, v) # post) = Inr (recs, q) \<Longrightarrow>
     \<exists>out recs'. calculate_tokens_out_from_tokens_in p (token_in v)
          (if i = 0 then tiq else toq) (so (address p)) = Inr out \<and> out \<noteq> 0 \<and>
        recs = hop_record p v (if i = 0 then tiq else toq) out # recs'"
  by (auto simp: Let_def split: sum.splits if_splits prod.splits)

lemma build_amounts_out_split:
  assumes "zip (swap_pools c) (swap_vectors c) = pre @ (p, v) # post"
    and "build_amounts_out c tok tiq (Some so) = Inr recs"
  shows "\<exists>recs1 q1 out recs'.
           build_amounts_out_loop so 0 tiq 0 pre = Inr (recs1, q1) \<and>
           calculate_tokens_out_from_tokens_in p (token_in v)
             (if pre = [] then tiq else q1) (so (address p)) = Inr out \<and> out \<noteq> 0 \<and>
           recs = recs1 @ hop_record p v (if pre = [] then tiq else q1) out # recs' \<and>
           length recs1 = length pre \<and> length recs' = length post"
proof -
  from assms obtain q where
    whole: "build_amounts_out_loop so 0 tiq 0 (pre @ (p, v) # post) = Inr (recs, q)"
    by (auto simp: build_amounts_out_def split: sum.splits prod.splits)
  then obtain recs1 q1 recs2 where
    pre: "build_amounts_out_loop so 0 tiq 0 pre = Inr (recs1, q1)" and
    post: "build_amounts_out_loop so (length pre) tiq q1 ((p, v) # post) = Inr (recs2, q)" and
    recs: "recs = recs1 @ recs2"
    by (auto simp: build_amounts_out_loop_append split: sum.splits prod.splits)
  from build_amounts_out_loop_head [OF post] obtain out recs' where
    out: "calculate_tokens_out_from_tokens_in p (token_in v)
        (if pre = [] then tiq else q1) (so (address p)) = Inr out" "out \<noteq> 0" and
    recs2: "recs2 = hop_record p v (if pre = [] then tiq else q1) out # recs'"
    by auto
  from build_amounts_out_loop_length [OF pre] have l1: "length recs1 = length pre" .
  from build_amounts_out_loop_length [OF post] recs2 have l2: "length recs' = length post"
    by simp
  from pre out recs recs2 l1 l2 show ?thesis by blast
qed

text \<open>
  C7: at every hop position of the cycle, if the hops before it were built and the hop's
  swap calculation yields 0, \<open>_build_amounts_out\<close> raises the \<open>ArbitrageError\<close> for a
  zero-output swap; and when \<open>_build_amounts_out\<close> returns, every hop's swap calculation
  yielded a nonzero output and no V2 record carries two zero amounts.
\<close>

theorem zero_output_hop:
  assumes "zip (swap_pools c) (swap_vectors c) = pre @ (p, v) # post"
  shows "(\<forall>recs1 q1.
            build_amounts_out_loop so 0 tiq 0 pre = Inr (recs1, q1) \<and>
            calculate_tokens_out_from_tokens_in p (token_in v)
              (if pre = [] then tiq else q1) (so (address p)) = Inr 0 \<longrightarrow>
            build_amounts_out c tok tiq (Some so) = Inl (ArbitrageError ZeroOutputSwap)) \<and>
         (\<forall>recs.
            build_amounts_out c tok tiq (Some so) = Inr recs \<longrightarrow>
            (\<exists>recs1 q1 out.
               build_amounts_out_loop so 0 tiq 0 pre = Inr (recs1, q1) \<and>
               calculate_tokens_out_from_tokens_in p (token_in v)
                 (if pre = [] then tiq else q1) (so (address p)) = Inr out \<and> out \<noteq> 0) \<and>
            UniswapV2PoolSwapAmounts (0, 0) \<notin> set recs)"
proof (intro conjI allI impI)
  fix recs1 q1
  assume h: "build_amounts_out_loop so 0 tiq 0 pre = Inr (recs1, q1) \<and>
     calculate_tokens_out_from_tokens_in p (token_in v)
       (if pre = [] then tiq else q1) (so (address p)) = Inr 0"
  then have "build_amounts_out_loop so (length pre) tiq q1 ((p, v) # post) =
      Inl (ArbitrageError ZeroOutputSwap)"
    by simp
  with h assms show "build_amounts_out c tok tiq (Some so) = Inl (ArbitrageError ZeroOutputSwap)"
    by (simp add: build_amounts_out_def build_amounts_out_loop_append)
next
  fix recs
  assume r: "build_amounts_out c tok tiq (Some so) = Inr recs"
  from build_amounts_out_split [OF assms r]
  show "\<exists>recs1 q1 out.
      build_amounts_out_loop so 0 tiq 0 pre = Inr (recs1, q1) \<and>
      calculate_tokens_out_from_tokens_in p (token_in v)
        (if pre = [] then tiq else q1) (so (address p)) = Inr out \<and> out \<noteq> 0"
    by blast
  from r obtain q where
    "build_amounts_out_loop so 0 tiq 0 (zip (swap_pools c) (swap_vectors c)) = Inr (recs, q)"
    by (auto simp: build_amounts_out_def split: sum.splits prod.splits)
  then show "UniswapV2PoolSwapAmounts (0, 0) \<notin> set recs"
    by (rule build_amounts_out_loop_nonzero)
qed

text \<open>
  C8: when \<open>_build_amounts_out\<close> returns, there is one record per hop; the record of a V2
  hop is \<open>(0, amount_out)\<close> when the hop is zero-for-one and \<open>(amount_out, 0)\<close> otherwise,
  where \<open>amount_out\<close> is that hop's nonzero output, so exactly one component is zero; the
  record of a V3 hop carries the quantity fed into that hop (the input amount at the
  first hop, the previous output afterwards), the hop's direction flag and the limit
  \<open>MIN_SQRT_RATIO + 1\<close> when zero-for-one, \<open>MAX_SQRT_RATIO - 1\<close> otherwise.
\<close>

theorem swap_amount_records:
  assumes "zip (swap_pools c) (swap_vectors c) = pre @ (p, v) # post"
    and "build_amounts_out c tok tiq (Some so) = Inr recs"
  shows "\<exists>recs1 q1 out.
           build_amounts_out_loop so 0 tiq 0 pre = Inr (recs1, q1) \<and>
           calculate_tokens_out_from_tokens_in p (token_in v)
             (if pre = [] then tiq else q1) (so (address p)) = Inr out \<and> out \<noteq> 0 \<and>
           length recs = length pre + 1 + length post \<and>
           recs ! length pre =
             (case kind p of
                LiquidityPool f0 f1 \<Rightarrow>
                  UniswapV2PoolSwapAmounts (if zero_for_one v then (0, out) else (out, 0))
              | V3LiquidityPool f \<Rightarrow>
                  UniswapV3PoolSwapAmounts (if pre = [] then tiq else q1) (zero_for_one v)
                    (if zero_for_one v then MIN_SQRT_RATIO + 1 else MAX_SQRT_RATIO - 1)) \<and>
           (\<forall>a. recs ! length pre = UniswapV2PoolSwapAmounts a \<longrightarrow>
                (fst a = 0) \<noteq> (snd a = 0))"
proof -
  from build_amounts_out_split [OF assms] obtain recs1 q1 out recs' where
    pre: "build_amounts_out_loop so 0 tiq 0 pre = Inr (recs1, q1)" and
    out: "calculate_tokens_out_from_tokens_in p (token_in v)
        (if pre = [] then tiq else q1) (so (address p)) = Inr out" "out \<noteq> 0" and
    recs: "recs = recs1 @ hop_record p v (if pre = [] then tiq else q1) out # recs'" and
    len: "length recs1 = length pre" "length recs' = length post"
    by blast
  from recs len have nth: "recs ! length pre = hop_record p v (if pre = [] then tiq else q1) out"
    by (simp add: nth_append)
  from recs len have "length recs = length pre + 1 + length post" by simp
  moreover from nth have "recs ! length pre =
     (case kind p of
        LiquidityPool f0 f1 \<Rightarrow>
          UniswapV2PoolSwapAmounts (if zero_for_one v then (0, out) else (out, 0))
      | V3LiquidityPool f \<Rightarrow>
          UniswapV3PoolSwapAmounts (if pre = [] then tiq else q1) (zero_for_one v)
            (if zero_for_one v then MIN_SQRT_RATIO + 1 else MAX_SQRT_RATIO - 1))"
    by (simp add: hop_record_def)
  moreover from nth out(2) have
    "\<forall>a. recs ! length pre = UniswapV2PoolSwapAmounts a \<longrightarrow> (fst a = 0) \<noteq> (snd a = 0)"
    by (auto simp: hop_record_def split: pool_kind.splits if_splits)
  ultimately show ?thesis using pre out by blast
qed

lemma example_vectors_eq: "example_vectors = [vector_1, vector_2]"
  by (simp add: example_vectors_def vector_1_def vector_2_def)

lemma pool_a_out:
  "x \<noteq> 0 \<Longrightarrow> calculate_tokens_out_from_tokens_in pool_a (token_in vector_1) x None =
     Inr ((x * 997 * 1010) div (1000 * 1000 + x * 997))"
  by (simp add: pool_a_def v2_pool_def v2_calculate_tokens_out_from_tokens_in_def
      example_state_def vector_1_def v2_amount_out_default)

lemma pool_b_out:
  "x \<noteq> 0 \<Longrightarrow> calculate_tokens_out_from_tokens_in pool_b (token_in vector_2) x None =
     Inr ((x * 997 * 1010) div (1000 * 1000 + x * 997))"
  by (simp add: pool_b_def v2_pool_def v2_calculate_tokens_out_from_tokens_in_def
      example_state_def vector_2_def v2_amount_out_default)

lemma pool_c_out:
  "x \<noteq> 0 \<Longrightarrow> calculate_tokens_out_from_tokens_in pool_c (token_in vector_1) x None =
     Inr ((x * 997 * 1) div (10 * 1000 + x * 997))"
  by (simp add: pool_c_def v2_pool_def v2_calculate_tokens_out_from_tokens_in_def
      drained_state_def vector_1_def v2_amount_out_default)

lemma pool_live_out:
  "calculate_tokens_out_from_tokens_in pool_live t x ov = Inr x"
  by (simp add: pool_live_def echo_pool_def)

lemma pool_kinds:
  "kind pool_a = LiquidityPool (3 / 1000) (3 / 1000)"
  "kind pool_b = LiquidityPool (3 / 1000) (3 / 1000)"
  "kind pool_c = LiquidityPool (3 / 1000) (3 / 1000)"
  "kind pool_live = V3LiquidityPool 3000"
  by (simp_all add: pool_a_def pool_b_def pool_c_def pool_live_def v2_pool_def echo_pool_def)

lemma example_hops:
  "zip (swap_pools (example_cycle m)) (swap_vectors (example_cycle m)) =
     [(pool_a, vector_1), (pool_b, vector_2)]"
  by (simp add: example_cycle_def example_vectors_eq)

lemma drained_hops:
  "zip (swap_pools drained_cycle) (swap_vectors drained_cycle) =
     [(pool_c, vector_1), (pool_b, vector_2)]"
  by (simp add: drained_cycle_def example_vectors_eq)

lemma live_hops:
  "zip (swap_pools live_cycle) (swap_vectors live_cycle) =
     [(pool_a, vector_1), (pool_live, vector_2)]"
  by (simp add: live_cycle_def example_vectors_eq)

lemma vector_flags: "zero_for_one vector_1" "zero_for_one vector_2"
  by (simp_all add: vector_1_def vector_2_def)

lemma build_example_1:
  "build_amounts_out (example_cycle m) t 1 (Some Map.empty) =
     Inr [UniswapV2PoolSwapAmounts (0, 1), UniswapV2PoolSwapAmounts (0, 1)]"
  by (simp add: build_amounts_out_def example_hops pool_a_out pool_b_out hop_record_def
      pool_kinds vector_flags)

lemma build_example_2:
  "build_amounts_out (example_cycle m) t 2 (Some Map.empty) =
     Inr [UniswapV2PoolSwapAmounts (0, 2), UniswapV2PoolSwapAmounts (0, 2)]"
  by (simp add: build_amounts_out_def example_hops pool_a_out pool_b_out hop_record_def
      pool_kinds vector_flags)

lemma build_v3_100:
  "build_amounts_out live_cycle t 100 (Some Map.empty) =
     Inr [UniswapV2PoolSwapAmounts (0, 91),
          UniswapV3PoolSwapAmounts 91 True (MIN_SQRT_RATIO + 1)]"
  by (simp add: build_amounts_out_def live_hops pool_a_out pool_live_out hop_record_def
      pool_kinds vector_flags)

theorem zero_output_hop_witness:
  "zip (swap_pools drained_cycle) (swap_vectors drained_cycle) =
     [] @ (pool_c, vector_1) # [(pool_b, vector_2)] \<and>
   build_amounts_out_loop Map.empty 0 5 0 [] = Inr ([], 0) \<and>
   calculate_tokens_out_from_tokens_in pool_c (token_in vector_1) 5 None = Inr 0 \<and>
   build_amounts_out drained_cycle 1 5 (Some Map.empty) = Inl (ArbitrageError ZeroOutputSwap) \<and>
   zip (swap_pools (example_cycle 2)) (swap_vectors (example_cycle 2)) =
     [(pool_a, vector_1)] @ (pool_b, vector_2) # [] \<and>
   build_amounts_out (example_cycle 2) 1 1 (Some Map.empty) =
     Inr [UniswapV2PoolSwapAmounts (0, 1), UniswapV2PoolSwapAmounts (0, 1)] \<and>
   UniswapV2PoolSwapAmounts (0, 0) \<notin>
     set [UniswapV2PoolSwapAmounts (0, 1), UniswapV2PoolSwapAmounts (0, 1)]"
proof -
  have hops: "zip (swap_pools drained_cycle) (swap_vectors drained_cycle) =
      [] @ (pool_c, vector_1) # [(pool_b, vector_2)]"
    by (simp add: drained_hops)
  have pre: "build_amounts_out_loop Map.empty 0 5 0 [] = Inr ([], 0)" by simp
  have zero: "calculate_tokens_out_from_tokens_in pool_c (token_in vector_1)
      (if ([] :: (pool \<times> UniswapPoolSwapVector) list) = [] then 5 else 0)
      (Map.empty (address pool_c)) = Inr 0"
    by (simp add: pool_c_out)
  from zero_output_hop [OF hops, of Map.empty 5 1] pre zero
  have raised: "build_amounts_out drained_cycle 1 5 (Some Map.empty) =
      Inl (ArbitrageError ZeroOutputSwap)"
    by blast
  have hops': "zip (swap_pools (example_cycle 2)) (swap_vectors (example_cycle 2)) =
      [(pool_a, vector_1)] @ (pool_b, vector_2) # []"
    by (simp add: example_hops)
  from zero_output_hop [OF hops', of Map.empty 1 1] build_example_1 [of 2 1]
  have "UniswapV2PoolSwapAmounts (0, 0) \<notin>
      set [UniswapV2PoolSwapAmounts (0, 1), UniswapV2PoolSwapAmounts (0, 1)]"
    by blast
  with hops pre zero raised hops' build_example_1 [of 2 1] show ?thesis by simp
qed

theorem swap_amount_records_witness:
  "zip (swap_pools live_cycle) (swap_vectors live_cycle) =
     [(pool_a, vector_1)] @ (pool_live, vector_2) # [] \<and>
   build_amounts_out live_cycle 1 100 (Some Map.empty) =
     Inr [UniswapV2PoolSwapAmounts (0, 91),
          UniswapV3PoolSwapAmounts 91 True (MIN_SQRT_RATIO + 1)] \<and>
   build_amounts_out_loop Map.empty 0 100 0 [(pool_a, vector_1)] =
     Inr ([UniswapV2PoolSwapAmounts (0, 91)], 91) \<and>
   [UniswapV2PoolSwapAmounts (0, 91), UniswapV3PoolSwapAmounts 91 True (MIN_SQRT_RATIO + 1)]
     ! length [(pool_a, vector_1)] = UniswapV3PoolSwapAmounts 91 True (MIN_SQRT_RATIO + 1)"
proof -
  have hops: "zip (swap_pools live_cycle) (swap_vectors live_cycle) =
      [(pool_a, vector_1)] @ (pool_live, vector_2) # []"
    by (simp add: live_hops)
  have pre: "build_amounts_out_loop Map.empty 0 100 0 [(pool_a, vector_1)] =
      Inr ([UniswapV2PoolSwapAmounts (0, 91)], 91)"
    by (simp add: pool_a_out hop_record_def pool_kinds vector_flags)
  from swap_amount_records [OF hops build_v3_100 [of 1]] obtain recs1 q1 out where
    "build_amounts_out_loop Map.empty 0 100 0 [(pool_a, vector_1)] = Inr (recs1, q1)" and
    "[UniswapV2PoolSwapAmounts (0, 91), UniswapV3PoolSwapAmounts 91 True (MIN_SQRT_RATIO + 1)]
       ! length [(pool_a, vector_1)] =
     (case kind pool_live of
        LiquidityPool f0 f1 \<Rightarrow>
          UniswapV2PoolSwapAmounts (if zero_for_one vector_2 then (0, out) else (out, 0))
      | V3LiquidityPool f \<Rightarrow>
          UniswapV3PoolSwapAmounts (if [(pool_a, vector_1)] = [] then 100 else q1)
            (zero_for_one vector_2)
            (if zero_for_one vector_2 then MIN_SQRT_RATIO + 1 else MAX_SQRT_RATIO - 1))"
    by blast
  with pre have "[UniswapV2PoolSwapAmounts (0, 91),
      UniswapV3PoolSwapAmounts 91 True (MIN_SQRT_RATIO + 1)]
       ! length [(pool_a, vector_1)] = UniswapV3PoolSwapAmounts 91 True (MIN_SQRT_RATIO + 1)"
    by (simp add: pool_kinds vector_flags)
  with hops pre build_v3_100 [of 1] show ?thesis by simp
qed

section \<open>Properties of the objective and of the calculation\<close>

lemma arb_profit_loop_chain:
  "arb_profit_loop so i tiq toq hops =
     (case swap_chain so i tiq toq hops of
        Inl e \<Rightarrow> (if e = EVMRevertError \<or> e = LiquidityPoolError then Inr 0 else Inl e)
      | Inr out \<Rightarrow> Inr out)"
proof (induction hops arbitrary: i toq)
  case Nil
  then show ?case by simp
next
  case (Cons h hops)
  obtain p v where h: "h = (p, v)" by (cases h)
  show ?case
    by (cases "calculate_tokens_out_from_tokens_in p (token_in v)
          (if i = 0 then tiq else toq) (so (address p))")
       (simp_all add: h Cons.IH)
qed

lemma py_int_floor: "0 \<le> x \<Longrightarrow> py_int x = \<lfloor>x\<rfloor>"
  by (simp add: py_int_def)

lemma py_int_0: "py_int 0 = 0"
  by (simp add: py_int_def)

lemma py_int_of_int: "py_int (of_int n) = n"
  by (simp add: py_int_def)

lemma py_round_of_int: "py_round (of_int n) = n"
  by (simp add: py_round_def)

text \<open>
  C2, as the objective has it: for every candidate input \<open>x\<close>, if the chain of swap
  calculations started with \<open>int(x)\<close> stops on an \<open>EVMRevertError\<close> or a
  \<open>LiquidityPoolError\<close>, the objective returns \<open>-float(0 - int(x))\<close>, the negated profit of
  an output of 0; if the chain ends with an output, it returns the negated profit of
  that output; any other exception that stops the chain leaves the objective. \<open>int(x)\<close>
  is the floor of \<open>x\<close> for the non-negative inputs an optimiser bounded below by 1
  supplies. \<open>_calculate\<close> has no handler around the optimiser: what the optimiser raises,
  \<open>_calculate\<close> raises.
\<close>

theorem objective_swallows_errors:
  "arb_profit c so x =
     (case swap_chain so 0 (py_int x) 0 (zip (swap_pools c) (swap_vectors c)) of
        Inl e \<Rightarrow>
          if e = EVMRevertError \<or> e = LiquidityPoolError
          then Inr (- float_of_int (0 - py_int x)) else Inl e
      | Inr out \<Rightarrow> Inr (- float_of_int (out - py_int x))) \<and>
   (0 \<le> x \<longrightarrow> py_int x = \<lfloor>x\<rfloor>) \<and>
   (\<forall>ms ovs e.
      pre_calculation_check c ovs = Inr () \<and> sort_overrides ovs = Inr so \<and>
      ms (arb_profit c so) (bounds_of c) (bracket_of c) 1 = Inl e \<longrightarrow>
      private_calculate ms c ovs = Inl e)"
  by (auto simp: arb_profit_def arb_profit_loop_chain py_int_floor private_calculate_def
      Let_def split: sum.splits)

lemma float_of_int_minus_2: "float_of_int (- 2) = - 2"
  by code_simp

lemma reverting_hops:
  "zip (swap_pools reverting_cycle) (swap_vectors reverting_cycle) =
     [(pool_a, vector_1), (reverting_pool, vector_2)]"
  by (simp add: reverting_cycle_def example_vectors_eq)

lemma floor_5_2: "\<lfloor>5 / 2 :: rat\<rfloor> = 2"
  by (rule floor_unique) simp_all

lemma py_int_5_2: "py_int (5 / 2) = 2"
  by (simp add: py_int_def floor_5_2)

lemma sort_overrides_None: "sort_overrides None = Inr Map.empty"
  by (simp add: sort_overrides_def)

lemma example_pre_check: "pre_calculation_check (example_cycle m) None = Inr ()"
  using pre_calculation_check_liquid [OF sort_overrides_None example_liquid_empty [of m]]
    example_factor_empty [of m]
  by simp

lemma private_calculate_unfold:
  assumes "pre_calculation_check c ovs = Inr ()"
    and "sort_overrides ovs = Inr so"
    and "ms (arb_profit c so) (bounds_of c) (bracket_of c) 1 = Inr opt"
  shows "private_calculate ms c ovs =
     (case build_amounts_out c (input_token c) (py_int (opt_x opt)) (Some so) of
        Inl e \<Rightarrow> Inl (ArbitrageError NoPossibleArbitrage)
      | Inr amounts \<Rightarrow>
          Inr \<lparr>result_id = cycle_id c, result_input_token = input_token c,
               profit_token = input_token c, input_amount = py_int (opt_x opt),
               profit_amount = - py_int (opt_fun opt), swap_amounts = amounts\<rparr>)"
  using assms by (simp add: private_calculate_def Let_def)

text \<open>
  C3, as \<open>calculate\<close> has it: a failure of the pre-flight check is the failure of
  \<open>calculate\<close>; when the check passes and the optimiser returns, \<open>calculate\<close> reports
  "no possible arbitrage" exactly when rebuilding the per-hop amounts at the optimiser's
  input raises, and otherwise returns a result carrying the rebuilt amounts, whatever
  the sign of the best profit.
\<close>

theorem calculate_outcome:
  "(\<forall>e. pre_calculation_check c ovs = Inl e \<longrightarrow> calculate ms c ovs = Inl e) \<and>
   (\<forall>so opt.
      pre_calculation_check c ovs = Inr () \<and> sort_overrides ovs = Inr so \<and>
      ms (arb_profit c so) (bounds_of c) (bracket_of c) 1 = Inr opt \<longrightarrow>
      calculate ms c ovs =
        (case build_amounts_out c (input_token c) (py_int (opt_x opt)) (Some so) of
           Inl e \<Rightarrow> Inl (ArbitrageError NoPossibleArbitrage)
         | Inr amounts \<Rightarrow>
             Inr \<lparr>result_id = cycle_id c, result_input_token = input_token c,
                  profit_token = input_token c, input_amount = py_int (opt_x opt),
                  profit_amount = - py_int (opt_fun opt), swap_amounts = amounts\<rparr>))"
proof (intro conjI allI impI)
  fix e assume "pre_calculation_check c ovs = Inl e"
  then show "calculate ms c ovs = Inl e" by (simp add: calculate_def)
next
  fix so opt
  assume h: "pre_calculation_check c ovs = Inr () \<and> sort_overrides ovs = Inr so \<and>
      ms (arb_profit c so) (bounds_of c) (bracket_of c) 1 = Inr opt"
  then have "calculate ms c ovs = private_calculate ms c ovs" by (simp add: calculate_def)
  with h private_calculate_unfold [of c ovs so ms opt]
  show "calculate ms c ovs =
        (case build_amounts_out c (input_token c) (py_int (opt_x opt)) (Some so) of
           Inl e \<Rightarrow> Inl (ArbitrageError NoPossibleArbitrage)
         | Inr amounts \<Rightarrow>
             Inr \<lparr>result_id = cycle_id c, result_input_token = input_token c,
                  profit_token = input_token c, input_amount = py_int (opt_x opt),
                  profit_amount = - py_int (opt_fun opt), swap_amounts = amounts\<rparr>)"
    by simp
qed

lemma floor_3_2: "\<lfloor>3 / 2 :: rat\<rfloor> = 1"
  by (rule floor_unique) simp_all

lemma py_int_3_2: "py_int (3 / 2) = 1"
  by (simp add: py_int_def floor_3_2)

lemma floor_27_10: "\<lfloor>27 / 10 :: rat\<rfloor> = 2"
  by (rule floor_unique) simp_all

lemma py_int_27_10: "py_int (27 / 10) = 2"
  by (simp add: py_int_def floor_27_10)

lemma py_round_27_10: "py_round (27 / 10) = 3"
  by (simp add: py_round_def floor_27_10 Let_def)

lemma arb_profit_example_1:
  "py_int x = 1 \<Longrightarrow> arb_profit (example_cycle m) Map.empty x = Inr 0"
  by (simp add: arb_profit_def example_hops pool_a_out pool_b_out float_of_int_0)

lemma arb_profit_example_2:
  "py_int x = 2 \<Longrightarrow> arb_profit (example_cycle m) Map.empty x = Inr 0"
  by (simp add: arb_profit_def example_hops pool_a_out pool_b_out float_of_int_0)

lemma example_cycle_fields:
  "cycle_id (example_cycle m) = ''cycle''" "input_token (example_cycle m) = 1"
  "max_input (example_cycle m) = m"
  by (simp_all add: example_cycle_def)

lemma reverting_pre_check: "pre_calculation_check reverting_cycle None = Inr ()"
proof -
  have liquid: "list_all (hop_liquid Map.empty)
      (zip (swap_pools reverting_cycle) (swap_vectors reverting_cycle))"
    by (simp add: reverting_cycle_def reverting_pool_def live_state_def example_defs
        MIN_SQRT_RATIO_def)
  have "\<not> spec_profit_factor Map.empty
      (zip (swap_pools reverting_cycle) (swap_vectors reverting_cycle)) < 1"
    by (simp add: reverting_cycle_def reverting_pool_def live_state_def example_defs
        factor_defs Fract_of_int_quotient)
       code_simp
  with pre_calculation_check_liquid [OF sort_overrides_None liquid] show ?thesis by simp
qed

theorem calculate_outcome_witness:
  "pre_calculation_check reverting_cycle None = Inr () \<and>
   sort_overrides None = Inr Map.empty \<and>
   point_minimizer (5 / 2) (arb_profit reverting_cycle Map.empty) (bounds_of reverting_cycle)
     (bracket_of reverting_cycle) 1 = Inr \<lparr>opt_x = 5 / 2, opt_fun = 2\<rparr> \<and>
   build_amounts_out reverting_cycle 1 2 (Some Map.empty) = Inl EVMRevertError \<and>
   calculate (point_minimizer (5 / 2)) reverting_cycle None =
     Inl (ArbitrageError NoPossibleArbitrage) \<and>
   pre_calculation_check drained_cycle None = Inl ZeroLiquidityError \<and>
   calculate (point_minimizer (5 / 2)) drained_cycle None = Inl ZeroLiquidityError"
proof -
  have obj: "arb_profit reverting_cycle Map.empty (5 / 2) = Inr 2"
    by (simp add: arb_profit_def reverting_hops py_int_5_2 pool_a_out reverting_pool_def
        float_of_int_minus_2)
  then have opt: "point_minimizer (5 / 2) (arb_profit reverting_cycle Map.empty)
      (bounds_of reverting_cycle) (bracket_of reverting_cycle) 1 =
      Inr \<lparr>opt_x = 5 / 2, opt_fun = 2\<rparr>"
    by (simp add: point_minimizer_def)
  have build: "build_amounts_out reverting_cycle 1 2 (Some Map.empty) = Inl EVMRevertError"
    by (simp add: build_amounts_out_def reverting_hops pool_a_out reverting_pool_def)
  have tok: "input_token reverting_cycle = 1" by (simp add: reverting_cycle_def)
  from calculate_outcome [of reverting_cycle None "point_minimizer (5 / 2)"]
    reverting_pre_check sort_overrides_None opt
  have "calculate (point_minimizer (5 / 2)) reverting_cycle None =
     (case build_amounts_out reverting_cycle (input_token reverting_cycle)
             (py_int (opt_x \<lparr>opt_x = 5 / 2, opt_fun = 2\<rparr>)) (Some Map.empty) of
        Inl e \<Rightarrow> Inl (ArbitrageError NoPossibleArbitrage)
      | Inr amounts \<Rightarrow>
          Inr \<lparr>result_id = cycle_id reverting_cycle,
               result_input_token = input_token reverting_cycle,
               profit_token = input_token reverting_cycle,
               input_amount = py_int (opt_x \<lparr>opt_x = 5 / 2, opt_fun = 2\<rparr>),
               profit_amount = - py_int (opt_fun \<lparr>opt_x = 5 / 2, opt_fun = 2\<rparr>),
               swap_amounts = amounts\<rparr>)"
    by blast
  with build tok have 1: "calculate (point_minimizer (5 / 2)) reverting_cycle None =
     Inl (ArbitrageError NoPossibleArbitrage)"
    by (simp add: py_int_5_2)
  have drained: "pre_calculation_check drained_cycle None = Inl ZeroLiquidityError"
    by (simp add: drained_cycle_def pool_c_def drained_state_def example_defs
        pre_calculation_check_def sort_overrides_def)
  from calculate_outcome [of drained_cycle None "point_minimizer (5 / 2)"] drained
  have 2: "calculate (point_minimizer (5 / 2)) drained_cycle None = Inl ZeroLiquidityError"
    by blast
  from reverting_pre_check sort_overrides_None opt build 1 drained 2 show ?thesis by simp
qed

text \<open>
  C3 as stated fails: on the two-pool example with a maximum input of 2 the pre-flight
  check passes, the optimiser's point 3/2 has profit 0, and \<open>calculate\<close> returns a result
  with \<open>profit_amount = 0\<close> instead of reporting "no possible arbitrage".
\<close>

theorem calculate_outcome_counterexample:
  "calculate (point_minimizer (3 / 2)) (example_cycle 2) None =
     Inr \<lparr>result_id = ''cycle'', result_input_token = 1, profit_token = 1,
          input_amount = 1, profit_amount = 0,
          swap_amounts = [UniswapV2PoolSwapAmounts (0, 1), UniswapV2PoolSwapAmounts (0, 1)]\<rparr>"
proof -
  have "point_minimizer (3 / 2) (arb_profit (example_cycle 2) Map.empty)
      (bounds_of (example_cycle 2)) (bracket_of (example_cycle 2)) 1 =
      Inr \<lparr>opt_x = 3 / 2, opt_fun = 0\<rparr>"
    by (simp add: point_minimizer_def arb_profit_example_1 [OF py_int_3_2])
  from private_calculate_unfold [of "example_cycle 2" None Map.empty "point_minimizer (3 / 2)"
      "\<lparr>opt_x = 3 / 2, opt_fun = 0\<rparr>", OF example_pre_check sort_overrides_None this]
  show ?thesis
    by (simp add: calculate_def example_pre_check py_int_3_2 example_cycle_fields
        build_example_1 py_int_0)
qed

text \<open>
  The same holds at whatever point of the bounds the optimiser settles on: every input
  between 1 and 2 gives a result with profit 0.
\<close>

lemma py_int_between:
  assumes "1 \<le> x" and "x \<le> 2"
  shows "py_int x = 1 \<or> py_int x = 2"
proof -
  from assms have "0 \<le> x" by simp
  then have "py_int x = \<lfloor>x\<rfloor>" by (rule py_int_floor)
  moreover from assms have "1 \<le> \<lfloor>x\<rfloor>" "\<lfloor>x\<rfloor> \<le> 2"
    by (simp_all add: le_floor_iff floor_le_iff)
  ultimately show ?thesis by linarith
qed

lemma example_cycle_never_profitable:
  assumes "1 \<le> x" and "x \<le> 2"
  shows "\<exists>r. calculate (point_minimizer x) (example_cycle 2) None = Inr r \<and>
             profit_amount r = 0"
proof -
  from py_int_between [OF assms] have obj: "arb_profit (example_cycle 2) Map.empty x = Inr 0"
    using arb_profit_example_1 arb_profit_example_2 by blast
  then have opt: "point_minimizer x (arb_profit (example_cycle 2) Map.empty)
      (bounds_of (example_cycle 2)) (bracket_of (example_cycle 2)) 1 =
      Inr \<lparr>opt_x = x, opt_fun = 0\<rparr>"
    by (simp add: point_minimizer_def)
  note unfold = private_calculate_unfold [of "example_cycle 2" None Map.empty
      "point_minimizer x" "\<lparr>opt_x = x, opt_fun = 0\<rparr>",
      OF example_pre_check sort_overrides_None opt]
  from py_int_between [OF assms] show ?thesis
  proof
    assume "py_int x = 1"
    with unfold show ?thesis
      by (simp add: calculate_def example_pre_check example_cycle_fields build_example_1
          py_int_0)
  next
    assume "py_int x = 2"
    with unfold show ?thesis
      by (simp add: calculate_def example_pre_check example_cycle_fields build_example_2
          py_int_0)
  qed
qed

lemma faulting_hops:
  "zip (swap_pools faulting_cycle) (swap_vectors faulting_cycle) =
     [(pool_a, vector_1), (faulting_pool, vector_2)]"
  by (simp add: faulting_cycle_def example_vectors_eq)

lemma faulting_pre_check: "pre_calculation_check faulting_cycle None = Inr ()"
proof -
  have liquid: "list_all (hop_liquid Map.empty)
      (zip (swap_pools faulting_cycle) (swap_vectors faulting_cycle))"
    by (simp add: faulting_cycle_def faulting_pool_def live_state_def example_defs
        MIN_SQRT_RATIO_def)
  have "\<not> spec_profit_factor Map.empty
      (zip (swap_pools faulting_cycle) (swap_vectors faulting_cycle)) < 1"
    by (simp add: faulting_cycle_def faulting_pool_def live_state_def example_defs
        factor_defs Fract_of_int_quotient)
       code_simp
  with pre_calculation_check_liquid [OF sort_overrides_None liquid] show ?thesis by simp
qed

lemma faulting_chain:
  "swap_chain Map.empty 0 (py_int (5 / 2)) 0
     (zip (swap_pools faulting_cycle) (swap_vectors faulting_cycle)) = Inl ZeroDivisionError"
  by (simp add: faulting_hops py_int_5_2 pool_a_out faulting_pool_def)

theorem objective_swallows_errors_witness:
  "swap_chain Map.empty 0 (py_int (5 / 2)) 0
     (zip (swap_pools reverting_cycle) (swap_vectors reverting_cycle)) = Inl EVMRevertError \<and>
   arb_profit reverting_cycle Map.empty (5 / 2) = Inr 2 \<and>
   py_int (5 / 2) = 2 \<and> \<lfloor>5 / 2 :: rat\<rfloor> = 2 \<and>
   swap_chain Map.empty 0 (py_int (5 / 2)) 0
     (zip (swap_pools (example_cycle 10)) (swap_vectors (example_cycle 10))) = Inr 2 \<and>
   arb_profit (example_cycle 10) Map.empty (5 / 2) = Inr 0 \<and>
   pre_calculation_check faulting_cycle None = Inr () \<and>
   point_minimizer (5 / 2) (arb_profit faulting_cycle Map.empty) (bounds_of faulting_cycle)
     (bracket_of faulting_cycle) 1 = Inl ZeroDivisionError \<and>
   private_calculate (point_minimizer (5 / 2)) faulting_cycle None = Inl ZeroDivisionError"
proof -
  have chain: "swap_chain Map.empty 0 (py_int (5 / 2)) 0
     (zip (swap_pools reverting_cycle) (swap_vectors reverting_cycle)) = Inl EVMRevertError"
    by (simp add: reverting_hops py_int_5_2 pool_a_out reverting_pool_def)
  have chain': "swap_chain Map.empty 0 (py_int (5 / 2)) 0
     (zip (swap_pools (example_cycle 10)) (swap_vectors (example_cycle 10))) = Inr 2"
    by (simp add: example_hops py_int_5_2 pool_a_out pool_b_out)
  note rev = objective_swallows_errors [of reverting_cycle Map.empty "5 / 2"]
  note exa = objective_swallows_errors [of "example_cycle 10" Map.empty "5 / 2"]
  note fau = objective_swallows_errors [of faulting_cycle Map.empty "5 / 2"]
  from rev chain have 1: "arb_profit reverting_cycle Map.empty (5 / 2) = Inr 2"
    by (simp add: py_int_5_2 float_of_int_minus_2)
  from exa chain' have 2: "arb_profit (example_cycle 10) Map.empty (5 / 2) = Inr 0"
    by (simp add: py_int_5_2 float_of_int_0)
  from rev have 3: "py_int (5 / 2) = \<lfloor>5 / 2 :: rat\<rfloor>" by simp
  from fau faulting_chain have
    obj: "arb_profit faulting_cycle Map.empty (5 / 2) = Inl ZeroDivisionError"
    by simp
  then have opt: "point_minimizer (5 / 2) (arb_profit faulting_cycle Map.empty)
      (bounds_of faulting_cycle) (bracket_of faulting_cycle) 1 = Inl ZeroDivisionError"
    by (simp add: point_minimizer_def)
  from fau have "\<forall>ms ovs e.
      pre_calculation_check faulting_cycle ovs = Inr () \<and> sort_overrides ovs = Inr Map.empty \<and>
      ms (arb_profit faulting_cycle Map.empty) (bounds_of faulting_cycle)
        (bracket_of faulting_cycle) 1 = Inl e \<longrightarrow>
      private_calculate ms faulting_cycle ovs = Inl e"
    by blast
  with faulting_pre_check sort_overrides_None opt
  have 4: "private_calculate (point_minimizer (5 / 2)) faulting_cycle None =
      Inl ZeroDivisionError"
    by blast
  from chain chain' 1 2 3 4 opt faulting_pre_check py_int_5_2 floor_5_2 show ?thesis by simp
qed

text \<open>
  C2 as stated fails: when a pool's swap calculation raises an arithmetic error other
  than the two caught classes, here \<open>ZeroDivisionError\<close>, the objective raises it, and so
  does \<open>_calculate\<close> around a minimiser that passes the objective's exceptions on.
\<close>

theorem objective_swallows_errors_counterexample:
  "arb_profit faulting_cycle Map.empty (5 / 2) = Inl ZeroDivisionError \<and>
   private_calculate (point_minimizer (5 / 2)) faulting_cycle None = Inl ZeroDivisionError"
proof -
  have obj: "arb_profit faulting_cycle Map.empty (5 / 2) = Inl ZeroDivisionError"
    by (simp add: arb_profit_def faulting_hops py_int_5_2 pool_a_out faulting_pool_def)
  then have "private_calculate (point_minimizer (5 / 2)) faulting_cycle None =
      Inl ZeroDivisionError"
    by (simp add: private_calculate_def faulting_pre_check sort_overrides_None
        point_minimizer_def)
  with obj show ?thesis by simp
qed

text \<open>
  The arguments of the optimiser are doubles: at the default maximum input of
  \<open>100 * 10^18\<close> the third bracket point is \<open>55 * 10^18 + 8192\<close>, and a maximum input of
  \<open>10^18 + 65\<close> gives the upper bound \<open>10^18 + 128\<close>.
\<close>

lemma default_bracket:
  "bracket_of (example_cycle (100 * 10 ^ 18)) =
     (45000000000000000000, 50000000000000000000, 55000000000000008192)"
  by (simp add: bracket_of_def example_cycle_fields) code_simp

lemma bounds_rounding:
  "bounds_of (example_cycle 1000000000000000065) = (1, 1000000000000000128)"
  by (simp add: bounds_of_def example_cycle_fields) code_simp

lemma py_int_double_27_10: "py_int (round_double (27 / 10)) = 2"
  by code_simp

lemma py_round_double_27_10: "py_round (round_double (27 / 10)) = 3"
  by code_simp

lemma example_point:
  "point_minimizer (round_double (27 / 10)) (arb_profit (example_cycle 10) Map.empty)
     (bounds_of (example_cycle 10)) (bracket_of (example_cycle 10)) 1 =
     Inr \<lparr>opt_x = round_double (27 / 10), opt_fun = 0\<rparr>"
  by (simp add: point_minimizer_def arb_profit_example_2 [OF py_int_double_27_10])

lemma example_run:
  "private_calculate (point_minimizer (round_double (27 / 10))) (example_cycle 10) None =
     Inr \<lparr>result_id = ''cycle'', result_input_token = 1, profit_token = 1,
          input_amount = 2, profit_amount = 0,
          swap_amounts = [UniswapV2PoolSwapAmounts (0, 2), UniswapV2PoolSwapAmounts (0, 2)]\<rparr>"
  using private_calculate_unfold [of "example_cycle 10" None Map.empty
      "point_minimizer (round_double (27 / 10))"
      "\<lparr>opt_x = round_double (27 / 10), opt_fun = 0\<rparr>",
      OF example_pre_check sort_overrides_None example_point]
  by (simp add: py_int_double_27_10 example_cycle_fields build_example_2 py_int_0)

text \<open>
  C5, as \<open>_calculate\<close> has it: a returned result comes from a call of the minimiser on
  the negated-profit objective with the bounds \<open>(1.0, float(max_input))\<close>, the bracket
  \<open>(0.45 * max_input, 0.50 * max_input, 0.55 * max_input)\<close> computed in doubles, and
  \<open>xatol = 1\<close>; it carries \<open>input_amount = int(opt.x)\<close>, the optimum truncated toward zero
  (its floor when it is non-negative), and \<open>profit_amount = -int(opt.fun)\<close>, which is
  \<open>-round(opt.fun)\<close> whenever \<open>opt.fun\<close> is a whole number.
\<close>

theorem optimizer_call_and_result:
  assumes "private_calculate ms c ovs = Inr r"
  shows "\<exists>so opt.
           sort_overrides ovs = Inr so \<and>
           ms (arb_profit c so) (1, float_of_int (max_input c))
              (float_mul (round_double (45 / 100)) (float_of_int (max_input c)),
               float_mul (round_double (50 / 100)) (float_of_int (max_input c)),
               float_mul (round_double (55 / 100)) (float_of_int (max_input c))) 1 = Inr opt \<and>
           input_amount r = py_int (opt_x opt) \<and>
           profit_amount r = - py_int (opt_fun opt) \<and>
           (0 \<le> opt_x opt \<longrightarrow> input_amount r = \<lfloor>opt_x opt\<rfloor>) \<and>
           (opt_fun opt \<in> \<int> \<longrightarrow> profit_amount r = - py_round (opt_fun opt))"
proof -
  from assms obtain so opt amounts where
    so: "sort_overrides ovs = Inr so" and
    opt: "ms (arb_profit c so) (bounds_of c) (bracket_of c) 1 = Inr opt" and
    r: "r = \<lparr>result_id = cycle_id c, result_input_token = input_token c,
             profit_token = input_token c, input_amount = py_int (opt_x opt),
             profit_amount = - py_int (opt_fun opt), swap_amounts = amounts\<rparr>"
    by (auto simp: private_calculate_def Let_def split: sum.splits)
  from opt have call: "ms (arb_profit c so) (1, float_of_int (max_input c))
      (float_mul (round_double (45 / 100)) (float_of_int (max_input c)),
       float_mul (round_double (50 / 100)) (float_of_int (max_input c)),
       float_mul (round_double (55 / 100)) (float_of_int (max_input c))) 1 = Inr opt"
    by (simp add: bounds_of_def bracket_of_def Let_def)
  have "opt_fun opt \<in> \<int> \<longrightarrow> py_int (opt_fun opt) = py_round (opt_fun opt)"
    by (auto simp: Ints_def py_int_of_int py_round_of_int)
  with so call r show ?thesis by (auto simp: py_int_floor)
qed

theorem optimizer_call_and_result_witness:
  "private_calculate (point_minimizer (round_double (27 / 10))) (example_cycle 10) None =
     Inr \<lparr>result_id = ''cycle'', result_input_token = 1, profit_token = 1,
          input_amount = 2, profit_amount = 0,
          swap_amounts = [UniswapV2PoolSwapAmounts (0, 2), UniswapV2PoolSwapAmounts (0, 2)]\<rparr> \<and>
   sort_overrides None = Inr Map.empty \<and>
   point_minimizer (round_double (27 / 10)) (arb_profit (example_cycle 10) Map.empty)
     (bounds_of (example_cycle 10)) (bracket_of (example_cycle 10)) 1 =
     Inr \<lparr>opt_x = round_double (27 / 10), opt_fun = 0\<rparr> \<and>
   py_int (round_double (27 / 10)) = 2 \<and> py_round 0 = 0 \<and>
   bracket_of (example_cycle (100 * 10 ^ 18)) =
     (45000000000000000000, 50000000000000000000, 55000000000000008192)"
proof -
  let ?r = "\<lparr>result_id = ''cycle'', result_input_token = 1, profit_token = 1,
          input_amount = 2, profit_amount = 0,
          swap_amounts = [UniswapV2PoolSwapAmounts (0, 2), UniswapV2PoolSwapAmounts (0, 2)]\<rparr>"
  from optimizer_call_and_result [OF example_run] obtain so opt' where
    "sort_overrides None = Inr so" and
    call: "point_minimizer (round_double (27 / 10)) (arb_profit (example_cycle 10) so)
       (1, float_of_int (max_input (example_cycle 10)))
       (float_mul (round_double (45 / 100)) (float_of_int (max_input (example_cycle 10))),
        float_mul (round_double (50 / 100)) (float_of_int (max_input (example_cycle 10))),
        float_mul (round_double (55 / 100)) (float_of_int (max_input (example_cycle 10)))) 1 =
       Inr opt'" and
    amt: "input_amount ?r = py_int (opt_x opt')"
    by blast
  then have so: "so = Map.empty" by (simp add: sort_overrides_None)
  from call so have opt': "opt' = \<lparr>opt_x = round_double (27 / 10), opt_fun = 0\<rparr>"
    by (simp add: point_minimizer_def arb_profit_example_2 [OF py_int_double_27_10])
  from amt opt' have "py_int (round_double (27 / 10)) = 2" by simp
  with example_run example_point sort_overrides_None default_bracket show ?thesis
    by (simp add: py_round_def)
qed

text \<open>
  C5 as stated fails: when the optimiser settles on the double 2.7 the result carries
  \<open>input_amount = 2\<close>, while \<open>round(2.7) = 3\<close>.
\<close>

theorem optimizer_call_and_result_counterexample:
  "private_calculate (point_minimizer (round_double (27 / 10))) (example_cycle 10) None =
     Inr \<lparr>result_id = ''cycle'', result_input_token = 1, profit_token = 1,
          input_amount = 2, profit_amount = 0,
          swap_amounts = [UniswapV2PoolSwapAmounts (0, 2), UniswapV2PoolSwapAmounts (0, 2)]\<rparr> \<and>
   py_round (round_double (27 / 10)) = 3"
  using example_run py_round_double_27_10 by simp

text \<open>
  C10, as the constructor has it: without a maximum input the constructor warns and sets
  \<open>max_input\<close> to \<open>100 * 10^18\<close>, which is positive; with a maximum input it does not
  warn, and whenever the pools construct at all they construct with any integer given,
  which is stored as it is. The upper bound handed to the optimiser is
  \<open>float(max_input)\<close>.
\<close>

theorem init_max_input:
  "fst (UniswapLpCycle_init inp pools ident None) =
     [''No maximum input provided, setting to 100 WETH''] \<and>
   fst (UniswapLpCycle_init inp pools ident (Some m)) = [] \<and>
   (\<forall>c. snd (UniswapLpCycle_init inp pools ident None) = Inr c \<longrightarrow>
      max_input c = 100 * 10 ^ 18 \<and> 0 < max_input c) \<and>
   (\<forall>c. snd (UniswapLpCycle_init inp pools ident mi) = Inr c \<longrightarrow>
      snd (UniswapLpCycle_init inp pools ident (Some m)) = Inr (c\<lparr>max_input := m\<rparr>)) \<and>
   (\<forall>c ms ovs r.
      snd (UniswapLpCycle_init inp pools ident mi) = Inr c \<and>
      private_calculate ms c ovs = Inr r \<longrightarrow>
      (\<exists>so bracket opt.
         ms (arb_profit c so) (1, float_of_int (max_input c)) bracket 1 = Inr opt))"
proof (intro conjI allI impI)
  show "fst (UniswapLpCycle_init inp pools ident None) =
     [''No maximum input provided, setting to 100 WETH'']"
    by (simp add: UniswapLpCycle_init_def)
  show "fst (UniswapLpCycle_init inp pools ident (Some m)) = []"
    by (simp add: UniswapLpCycle_init_def)
next
  fix c assume "snd (UniswapLpCycle_init inp pools ident None) = Inr c"
  then show "max_input c = 100 * 10 ^ 18" "0 < max_input c"
    by (auto simp: init_snd split: sum.splits)
next
  fix c assume "snd (UniswapLpCycle_init inp pools ident mi) = Inr c"
  then show "snd (UniswapLpCycle_init inp pools ident (Some m)) = Inr (c\<lparr>max_input := m\<rparr>)"
    by (auto simp: init_snd split: sum.splits)
next
  fix c ms ovs r
  assume "snd (UniswapLpCycle_init inp pools ident mi) = Inr c \<and>
      private_calculate ms c ovs = Inr r"
  then obtain so opt where
    "ms (arb_profit c so) (bounds_of c) (bracket_of c) 1 = Inr opt"
    by (auto simp: private_calculate_def Let_def split: sum.splits)
  then show "\<exists>so bracket opt.
      ms (arb_profit c so) (1, float_of_int (max_input c)) bracket 1 = Inr opt"
    unfolding bounds_of_def by blast
qed

theorem init_max_input_witness:
  "fst (UniswapLpCycle_init 1 [pool_a, pool_b] ''cycle'' None) =
     [''No maximum input provided, setting to 100 WETH''] \<and>
   snd (UniswapLpCycle_init 1 [pool_a, pool_b] ''cycle'' None) =
     Inr (example_cycle (100 * 10 ^ 18)) \<and>
   max_input (example_cycle (100 * 10 ^ 18)) = 100000000000000000000 \<and>
   snd (UniswapLpCycle_init 1 [pool_a, pool_b] ''cycle'' (Some (- 5))) =
     Inr (example_cycle (- 5)) \<and>
   max_input (example_cycle (- 5)) = - 5 \<and>
   snd (UniswapLpCycle_init 1 [pool_a, pool_b] ''cycle'' (Some 10)) = Inr (example_cycle 10) \<and>
   (\<exists>so bracket opt.
      point_minimizer (round_double (27 / 10)) (arb_profit (example_cycle 10) so)
        (1, float_of_int (max_input (example_cycle 10))) bracket 1 = Inr opt)"
proof -
  note inst = init_max_input [of 1 "[pool_a, pool_b]" "''cycle''" "- 5" None]
  have none: "snd (UniswapLpCycle_init 1 [pool_a, pool_b] ''cycle'' None) =
     Inr (example_cycle (100 * 10 ^ 18))"
    by (simp add: UniswapLpCycle_init_def pool_a_def pool_b_def v2_pool_def example_cycle_def
        example_vectors_def)
  from inst have 1: "fst (UniswapLpCycle_init 1 [pool_a, pool_b] ''cycle'' None) =
     [''No maximum input provided, setting to 100 WETH'']"
    by blast
  from inst none have 2: "max_input (example_cycle (100 * 10 ^ 18)) = 100 * 10 ^ 18"
    by blast
  from inst none have "snd (UniswapLpCycle_init 1 [pool_a, pool_b] ''cycle'' (Some (- 5))) =
     Inr ((example_cycle (100 * 10 ^ 18))\<lparr>max_input := - 5\<rparr>)"
    by blast
  then have 3: "snd (UniswapLpCycle_init 1 [pool_a, pool_b] ''cycle'' (Some (- 5))) =
     Inr (example_cycle (- 5))"
    by (simp add: example_cycle_def)
  have ten: "snd (UniswapLpCycle_init 1 [pool_a, pool_b] ''cycle'' (Some 10)) =
     Inr (example_cycle 10)"
    using init_example [of 10] by simp
  from init_max_input [of 1 "[pool_a, pool_b]" "''cycle''" 0 "Some 10"] ten example_run
  have 4: "\<exists>so bracket opt.
      point_minimizer (round_double (27 / 10)) (arb_profit (example_cycle 10) so)
        (1, float_of_int (max_input (example_cycle 10))) bracket 1 = Inr opt"
    by blast
  from 1 none 2 3 ten 4 show ?thesis by (simp add: example_cycle_fields)
qed

text \<open>
  C10 as stated fails: a cycle constructed with the maximum input 0 has \<open>max_input = 0\<close>,
  so the optimiser's upper bound lies below its lower bound 1.
\<close>

theorem init_max_input_counterexample:
  "UniswapLpCycle_init 1 [pool_a, pool_b] ''cycle'' (Some 0) = ([], Inr (example_cycle 0)) \<and>
   max_input (example_cycle 0) = 0 \<and> bounds_of (example_cycle 0) = (1, 0)"
  using init_example [of 0] by (simp add: example_cycle_def bounds_of_def float_of_int_0)

end
